theory Spec2Isabelle
  imports Main "HOL-Library.Word"
begin

section \<open>Python values used by \<open>streamlit-ui.py\<close>\<close>

text \<open>
  A Python \<open>str\<close> is a sequence of Unicode code points: \<open>len\<close> and slicing count code
  points, and \<open>str.strip()\<close> removes code points beyond Latin-1 as well. A string is
  therefore a list of code points; \<open>lit\<close> reads an ASCII literal of the source.
\<close>

type_synonym str = "nat list"

type_synonym bytes = "8 word list"

definition lit :: "string \<Rightarrow> str" where
  "lit s = map of_char s"

definition nl :: str where
  "nl = [10]"

text \<open>
  \<open>str.isspace\<close> on one code point, as CPython decides it: the characters of
  bidirectional class WS, B or S and of category Zs.
\<close>

definition isspace :: "nat \<Rightarrow> bool" where
  "isspace c \<longleftrightarrow>
     (9 \<le> c \<and> c \<le> 13) \<or> (28 \<le> c \<and> c \<le> 32) \<or> c = 133 \<or> c = 160 \<or> c = 5760 \<or>
     (8192 \<le> c \<and> c \<le> 8202) \<or> c = 8232 \<or> c = 8233 \<or> c = 8239 \<or> c = 8287 \<or>
     c = 12288"

text \<open>\<open>s.strip()\<close>: leading and trailing whitespace removed.\<close>

definition strip :: "str \<Rightarrow> str" where
  "strip s = rev (dropWhile isspace (rev (dropWhile isspace s)))"

text \<open>\<open>sep.join(xs)\<close>.\<close>

fun join :: "str \<Rightarrow> str list \<Rightarrow> str" where
  "join sep [] = []"
| "join sep [x] = x"
| "join sep (x # y # ys) = x @ sep @ join sep (y # ys)"

text \<open>\<open>x or ""\<close> for \<open>x\<close> a string or \<open>None\<close>: the empty string unless \<open>x\<close> is truthy.\<close>

fun or_empty :: "str option \<Rightarrow> str" where
  "or_empty None = []"
| "or_empty (Some txt) = (if txt = [] then [] else txt)"

text \<open>
  \<open>range(start, stop, step)\<close> for a positive step, and the slice \<open>s[i:j]\<close> for
  \<open>0 \<le> i \<le> j\<close>, which Python clamps to the end of the string.
\<close>

definition range3 :: "nat \<Rightarrow> nat \<Rightarrow> nat \<Rightarrow> nat list" where
  "range3 start stop step =
     map (\<lambda>k. start + k * step) [0..<(stop - start + step - 1) div step]"

definition slice :: "'a list \<Rightarrow> nat \<Rightarrow> nat \<Rightarrow> 'a list" where
  "slice s i j = take (j - i) (drop i s)"

text \<open>
  A value handed to \<open>st.write\<close> as the entities: a string, or whatever structured value
  an entity extractor produces.
\<close>

datatype 'ent val = Str str | Obj 'ent

section \<open>Exceptions and external calls\<close>

text \<open>
  An exception \<open>e\<close> of class \<open>Exception\<close> with \<open>message e\<close> its \<open>str(e)\<close>. A
  computation yields the calls it made to code outside the file, in order, and either
  the exception that left it or its value.
\<close>

datatype exn = Exception (message: str)

datatype call =
    PdfReader_call
  | extract_text_call
  | import_pdf2image
  | import_pytesseract
  | convert_from_bytes_call
  | image_to_string_call
  | exec_module_call
  | import_transformers
  | pipeline_call string
  | st_warning_call str
  | summarize_fn_call str
  | hf_summarizer_call str
  | ner_fn_call str
  | hf_ner_call str

type_synonym 'a comp = "call list \<times> (exn + 'a)"

definition return :: "'a \<Rightarrow> 'a comp" where
  "return x = ([], Inr x)"

definition raise :: "exn \<Rightarrow> 'a comp" where
  "raise e = ([], Inl e)"

text \<open>An external call \<open>c\<close> whose outcome is \<open>r\<close>.\<close>

definition ext :: "call \<Rightarrow> exn + 'a \<Rightarrow> 'a comp" where
  "ext c r = ([c], r)"

definition after :: "call list \<Rightarrow> 'a comp \<Rightarrow> 'a comp" where
  "after cs m = (cs @ fst m, snd m)"

text \<open>
  \<open>try: m  except Exception as e: h e\<close> followed by \<open>k\<close> when \<open>m\<close> raised nothing;
  \<open>bind\<close> is sequencing outside any \<open>try\<close>: the exception propagates.
\<close>

definition try_except :: "'a comp \<Rightarrow> (exn \<Rightarrow> 'b comp) \<Rightarrow> ('a \<Rightarrow> 'b comp) \<Rightarrow> 'b comp" where
  "try_except m h k =
     (case snd m of Inl e \<Rightarrow> after (fst m) (h e) | Inr x \<Rightarrow> after (fst m) (k x))"

definition bind :: "'a comp \<Rightarrow> ('a \<Rightarrow> 'b comp) \<Rightarrow> 'b comp" where
  "bind m k = try_except m raise k"

text \<open>A list comprehension \<open>[f(x) for x in xs]\<close> whose body may raise.\<close>

fun comprehension :: "('a \<Rightarrow> 'b comp) \<Rightarrow> 'a list \<Rightarrow> 'b list comp" where
  "comprehension f [] = return []"
| "comprehension f (x # xs) =
     bind (f x) (\<lambda>y. bind (comprehension f xs) (\<lambda>ys. return (y # ys)))"

text \<open>\<open>xs[0]\<close> and \<open>d[key]\<close>.\<close>

definition index0 :: "'a list \<Rightarrow> 'a comp" where
  "index0 xs =
     (case xs of [] \<Rightarrow> raise (Exception (lit ''list index out of range'')) | x # _ \<Rightarrow> return x)"

definition subscript :: "(str \<rightharpoonup> 'v) \<Rightarrow> str \<Rightarrow> 'v comp" where
  "subscript d key =
     (case d key of None \<Rightarrow> raise (Exception (lit [CHR 0x27] @ key @ lit [CHR 0x27]))
      | Some v \<Rightarrow> return v)"

section \<open>Text extraction\<close>

text \<open>
  The libraries \<open>extract_text_from_pdf_bytes\<close> depends on. \<open>PyPDF2\<close> is \<open>None\<close> when
  its import failed at start-up, else the reader: the pages of a document, each with
  the outcome of its \<open>extract_text()\<close>. The other two fields are the outcomes of the
  imports in the OCR branch.
\<close>

type_synonym page = "exn + str option"

record 'img libs =
  PyPDF2 :: "(bytes \<Rightarrow> exn + page list) option"
  pdf2image :: "exn + (bytes \<Rightarrow> exn + 'img list)"
  pytesseract :: "exn + ('img \<Rightarrow> exn + str)"

text \<open>The loop over \<open>reader.pages\<close>, appending to \<open>text_pages\<close>.\<close>

fun page_loop :: "str list \<Rightarrow> page list \<Rightarrow> str list comp" where
  "page_loop text_pages [] = return text_pages"
| "page_loop text_pages (page # pages) =
     bind (ext extract_text_call page)
       (\<lambda>t. page_loop (text_pages @ [or_empty t]) pages)"

definition extract_text_from_pdf_bytes :: "'img libs \<Rightarrow> bytes \<Rightarrow> bool \<Rightarrow> str comp" where
  "extract_text_from_pdf_bytes libs pdf_bytes use_ocr =
     (case PyPDF2 libs of
        None \<Rightarrow> return (lit ''PyPDF2 not installed. Install with: pip install PyPDF2'')
      | Some PdfReader \<Rightarrow>
          try_except
            (bind (ext PdfReader_call (PdfReader pdf_bytes)) (page_loop []))
            (\<lambda>e. return (lit ''PDF extraction error: '' @ message e))
            (\<lambda>text_pages.
               let text = strip (join nl text_pages) in
               if text \<noteq> [] then return text
               else if use_ocr then
                 try_except
                   (bind (ext import_pdf2image (pdf2image libs)) (\<lambda>convert_from_bytes.
                    bind (ext import_pytesseract (pytesseract libs)) (\<lambda>image_to_string.
                    return (convert_from_bytes, image_to_string))))
                   (\<lambda>_. return (lit
                      ''OCR dependencies missing. Install pdf2image and pytesseract to enable OCR.''))
                   (\<lambda>(convert_from_bytes, image_to_string).
                      try_except
                        (bind (ext convert_from_bytes_call (convert_from_bytes pdf_bytes))
                           (\<lambda>images.
                         bind (comprehension
                                 (\<lambda>img. ext image_to_string_call (image_to_string img)) images)
                           (\<lambda>ocr_text.
                         return (join nl ocr_text))))
                        (\<lambda>e. return (lit ''OCR extraction failed: '' @ message e))
                        return)
               else return (lit ''No extractable text found. Try enabling OCR.'')))"

section \<open>Summarization chunks\<close>

definition MAX_CHUNK :: nat where
  "MAX_CHUNK = 1000"

definition chunks :: "str \<Rightarrow> str list" where
  "chunks extracted =
     map (\<lambda>i. slice extracted i (i + MAX_CHUNK)) (range3 0 (length extracted) MAX_CHUNK)"

section \<open>Analysis backends\<close>

text \<open>
  A value found under a name of \<open>code/analysis.py\<close>, as far as the file uses it: its
  truth value in \<open>if v:\<close> and \<open>not v\<close>, and the outcome of calling it on a string (a
  \<open>TypeError\<close> for a value that is not callable). An ordinary function is true; an
  object whose class defines \<open>__bool__\<close> or \<open>__len__\<close> may be false and callable all the
  same. A variable holds such a value or \<open>None\<close>, which is false and not callable.
\<close>

record 'r attribute =
  truthy :: bool
  on_call :: "str \<Rightarrow> exn + 'r"

fun truth :: "'r attribute option \<Rightarrow> bool" where
  "truth None = False"
| "truth (Some v) = truthy v"

fun call_value :: "'r attribute option \<Rightarrow> str \<Rightarrow> exn + 'r" where
  "call_value None x =
     Inl (Exception (lit ([CHR 0x27] @ ''NoneType'' @ [CHR 0x27] @ '' object is not callable'')))"
| "call_value (Some v) x = on_call v x"

text \<open>
  What start-up finds around the file. \<open>analysis_py\<close> is \<open>None\<close> when
  \<open>code/analysis.py\<close> does not exist, else the outcome of executing it: a module with
  the two attributes read by \<open>getattr(..., None)\<close>. \<open>transformers\<close> is the outcome of
  importing \<open>pipeline\<close>, a constructor that may itself raise for either task; the
  object it builds is true in a boolean test.
\<close>

type_synonym 'ent tagger = "str \<Rightarrow> exn + 'ent val"

type_synonym hf_pipeline = "str \<Rightarrow> exn + (str \<rightharpoonup> str) list"

record 'ent repo_analysis =
  summarize_text :: "str attribute option"
  extract_entities :: "'ent val attribute option"

record 'ent pipeline =
  summarization :: "exn + hf_pipeline"
  ner :: "exn + 'ent tagger"

record 'ent site =
  analysis_py :: "(exn + 'ent repo_analysis) option"
  transformers :: "exn + 'ent pipeline"

text \<open>The four module-level variables the buttons read.\<close>

record 'ent backends =
  summarize_fn :: "str attribute option"
  ner_fn :: "'ent val attribute option"
  hf_summarizer :: "hf_pipeline option"
  hf_ner :: "'ent tagger option"

text \<open>
  The first \<open>try\<close> block of the module: the repository's own analysis functions.
\<close>

definition load_repo_analysis ::
  "'ent site \<Rightarrow> (str attribute option \<times> 'ent val attribute option) comp" where
  "load_repo_analysis s =
     try_except
       (case analysis_py s of
          None \<Rightarrow> return (None, None)
        | Some load \<Rightarrow>
            bind (ext exec_module_call load) (\<lambda>repo_analysis.
            return (summarize_text repo_analysis, extract_entities repo_analysis)))
       (\<lambda>e. bind (ext (st_warning_call
                (lit ''Could not import analysis functions: '' @ message e)) (Inr ()))
            (\<lambda>_. return (None, None)))
       return"

text \<open>
  The second \<open>try\<close> block: the Hugging Face pipelines, for what the repository did
  not provide. An exception leaves the variables as they are at that point.
\<close>

definition load_hf_pipelines ::
  "'ent site \<Rightarrow> str attribute option \<Rightarrow> 'ent val attribute option \<Rightarrow>
     (hf_pipeline option \<times> 'ent tagger option) comp" where
  "load_hf_pipelines s summarize_fn' ner_fn' =
     (let warn = (\<lambda>vars e.
            bind (ext (st_warning_call
                (lit ''Could not load Hugging Face pipelines: '' @ message e)) (Inr ()))
              (\<lambda>_. return vars))
      in
      if \<not> truth summarize_fn' \<or> \<not> truth ner_fn' then
        try_except (ext import_transformers (transformers s)) (warn (None, None))
          (\<lambda>pipeline.
             try_except
               (if \<not> truth summarize_fn'
                then bind (ext (pipeline_call ''summarization'') (summarization pipeline))
                       (\<lambda>p. return (Some p))
                else return None)
               (warn (None, None))
               (\<lambda>hf_summarizer'.
                  try_except
                    (if \<not> truth ner_fn'
                     then bind (ext (pipeline_call ''ner'') (ner pipeline))
                            (\<lambda>p. return (Some p))
                     else return None)
                    (warn (hf_summarizer', None))
                    (\<lambda>hf_ner'. return (hf_summarizer', hf_ner'))))
      else return (None, None))"

definition startup :: "'ent site \<Rightarrow> 'ent backends comp" where
  "startup s =
     bind (load_repo_analysis s) (\<lambda>(summarize_fn', ner_fn').
     bind (load_hf_pipelines s summarize_fn' ner_fn') (\<lambda>(hf_summarizer', hf_ner').
     return \<lparr>summarize_fn = summarize_fn', ner_fn = ner_fn',
             hf_summarizer = hf_summarizer', hf_ner = hf_ner'\<rparr>))"

text \<open>The body of the Summarize button: the value of \<open>summary\<close>.\<close>

definition Summarize :: "'ent backends \<Rightarrow> str \<Rightarrow> str comp" where
  "Summarize b extracted =
     (if truth (summarize_fn b)
      then ext (summarize_fn_call extracted) (call_value (summarize_fn b) extracted)
      else
          (case hf_summarizer b of
             Some p \<Rightarrow>
               bind (comprehension
                       (\<lambda>c. bind (ext (hf_summarizer_call c) (p c)) (\<lambda>out.
                            bind (index0 out) (\<lambda>d.
                            subscript d (lit ''summary_text''))))
                       (chunks extracted))
                 (\<lambda>summaries. return (join (nl @ nl) summaries))
           | None \<Rightarrow>
               return (lit (''No summarization backend available. '' @
                 ''Install transformers or add summarize_text in code/analysis.py''))))"

text \<open>The body of the Extract Entities button: the value of \<open>entities\<close>.\<close>

definition Extract_Entities :: "'ent backends \<Rightarrow> str \<Rightarrow> 'ent val comp" where
  "Extract_Entities b extracted =
     (if truth (ner_fn b)
      then ext (ner_fn_call extracted) (call_value (ner_fn b) extracted)
      else
          (case hf_ner b of
             Some p \<Rightarrow> ext (hf_ner_call extracted) (p extracted)
           | None \<Rightarrow>
               return (Str (lit (''No NER backend available. '' @
                 ''Install transformers or add extract_entities in code/analysis.py'')))))"

section \<open>Sample libraries and documents\<close>

text \<open>
  Concrete library behaviours on which the properties below are evaluated: a reader
  that finds the given pages in any document or rejects every document, a rasterizer
  that yields the given images or fails, and a recognizer that reads image \<open>i\<close> as the
  \<open>i\<close>-th of the given texts. Images are numbered.
\<close>

definition reader_of :: "page list \<Rightarrow> bytes \<Rightarrow> exn + page list" where
  "reader_of pages pdf_bytes = Inr pages"

definition broken_reader :: "exn \<Rightarrow> bytes \<Rightarrow> exn + page list" where
  "broken_reader e pdf_bytes = Inl e"

definition rasterizer :: "nat list \<Rightarrow> bytes \<Rightarrow> exn + nat list" where
  "rasterizer images pdf_bytes = Inr images"

definition broken_rasterizer :: "exn \<Rightarrow> bytes \<Rightarrow> exn + nat list" where
  "broken_rasterizer e pdf_bytes = Inl e"

definition recognizer :: "str list \<Rightarrow> nat \<Rightarrow> exn + str" where
  "recognizer outs img =
     (if img < length outs then Inr (outs ! img)
      else Inl (Exception (lit ''cannot read image'')))"

definition not_installed :: "string \<Rightarrow> exn" where
  "not_installed name = Exception (lit ''No module named '' @ lit name)"

text \<open>
  A summarization pipeline that answers a chunk with one entry holding the first \<open>n\<close>
  characters of the chunk under \<open>summary_text\<close>.
\<close>

definition leading_pipeline :: "nat \<Rightarrow> str \<Rightarrow> exn + (str \<rightharpoonup> str) list" where
  "leading_pipeline n c = Inr [[lit ''summary_text'' \<mapsto> take n c]]"

text \<open>
  What the values of \<open>code/analysis.py\<close> and the \<open>ner\<close> pipeline do when called: a
  summarizer that keeps the first \<open>n\<close> characters, an entity extractor that answers
  with the length of the text, and one that always fails.
\<close>

definition leading :: "nat \<Rightarrow> str \<Rightarrow> exn + str" where
  "leading n extracted = Inr (take n extracted)"

definition counting_tagger :: "str \<Rightarrow> exn + nat val" where
  "counting_tagger extracted = Inr (Obj (length extracted))"

definition broken_tagger :: "str \<Rightarrow> exn + nat val" where
  "broken_tagger extracted = Inl (Exception (lit ''model not loaded''))"

section \<open>Properties\<close>

subsection \<open>Strings\<close>

lemma strip_nonempty:
  assumes "c \<in> set s" and "\<not> isspace c"
  shows "strip s \<noteq> []"
proof -
  let ?d = "dropWhile isspace s"
  from assms have d: "?d \<noteq> []"
    by (auto simp: dropWhile_eq_Nil_conv)
  then have "\<not> isspace (hd ?d)"
    by (rule hd_dropWhile)
  moreover from d have "hd ?d \<in> set (rev ?d)"
    by simp
  ultimately have "dropWhile isspace (rev ?d) \<noteq> []"
    by (auto simp: dropWhile_eq_Nil_conv)
  then show ?thesis by (simp add: strip_def)
qed

lemma strip_ends:
  assumes "strip s \<noteq> []"
  shows "\<not> isspace (hd (strip s))" and "\<not> isspace (last (strip s))"
proof -
  let ?d = "dropWhile isspace s"
  let ?e = "dropWhile isspace (rev ?d)"
  from assms have e: "?e \<noteq> []"
    by (simp add: strip_def)
  have d: "?d \<noteq> []"
  proof
    assume "?d = []"
    then have "?e = []"
      by (simp only: rev.simps dropWhile.simps)
    with e show False ..
  qed
  from e have "\<not> isspace (hd ?e)"
    by (rule hd_dropWhile)
  with e show "\<not> isspace (last (strip s))"
    by (simp add: strip_def last_rev)
  from e have "last (takeWhile isspace (rev ?d) @ ?e) = last ?e"
    by (rule last_appendR)
  then have "last ?e = last (rev ?d)"
    by (simp only: takeWhile_dropWhile_id)
  with d have "last ?e = hd ?d"
    by (simp add: last_rev)
  moreover from d have "\<not> isspace (hd ?d)"
    by (rule hd_dropWhile)
  ultimately show "\<not> isspace (hd (strip s))"
    using e by (simp add: strip_def hd_rev)
qed

lemma strip_inside:
  "\<exists>pre post. s = pre @ strip s @ post \<and>
     (\<forall>c \<in> set pre. isspace c) \<and> (\<forall>c \<in> set post. isspace c)"
proof -
  let ?d = "dropWhile isspace s"
  let ?pre = "takeWhile isspace s"
  let ?post = "rev (takeWhile isspace (rev ?d))"
  have "rev ?d = takeWhile isspace (rev ?d) @ dropWhile isspace (rev ?d)"
    by simp
  then have "rev (rev ?d) = rev (takeWhile isspace (rev ?d) @ dropWhile isspace (rev ?d))"
    by (rule arg_cong)
  then have "?d = strip s @ ?post"
    by (simp only: rev_rev_ident rev_append strip_def)
  moreover have "s = ?pre @ ?d"
    by simp
  ultimately have "s = ?pre @ strip s @ ?post"
    by simp
  moreover have "\<forall>c \<in> set ?pre. isspace c"
    by (auto dest: set_takeWhileD)
  moreover have "\<forall>c \<in> set ?post. isspace c"
    by (auto dest: set_takeWhileD)
  ultimately show ?thesis by blast
qed

lemma strip_unique:
  assumes "l = pre @ s @ post"
    and "\<forall>c \<in> set pre. isspace c" and "\<forall>c \<in> set post. isspace c"
    and "s \<noteq> []" and "\<not> isspace (hd s)" and "\<not> isspace (last s)"
  shows "strip l = s"
proof -
  from assms(4,5) have "dropWhile isspace (s @ post) = s @ post"
    by (cases s) simp_all
  with assms(1,2) have d: "dropWhile isspace l = s @ post"
    by (simp add: dropWhile_append2)
  from assms(4,6) have "dropWhile isspace (rev s) = rev s"
    by (cases "rev s") (simp_all add: hd_rev [symmetric])
  moreover from assms(3) have "dropWhile isspace (rev post @ rev s) = dropWhile isspace (rev s)"
    by (intro dropWhile_append2) simp
  ultimately have "dropWhile isspace (rev (s @ post)) = rev s"
    by (simp only: rev_append)
  with d show ?thesis by (simp add: strip_def)
qed

lemma set_join: "t \<in> set ts \<Longrightarrow> set t \<subseteq> set (join sep ts)"
  by (induction sep ts rule: join.induct) auto

subsection \<open>Computations\<close>

lemma after_pair: "after cs (cs', r) = (cs @ cs', r)"
  by (simp add: after_def)

lemma after_return: "after cs (return x) = (cs, Inr x)"
  by (simp add: after_def return_def)

lemma try_except_Inr: "try_except (cs, Inr x) h k = after cs (k x)"
  by (simp add: try_except_def)

lemma try_except_Inl: "try_except (cs, Inl e) h k = after cs (h e)"
  by (simp add: try_except_def)

lemma bind_Inr: "bind (cs, Inr x) k = after cs (k x)"
  by (simp add: bind_def try_except_def)

lemma bind_Inl: "bind (cs, Inl e) k = (cs, Inl e)"
  by (simp add: bind_def try_except_def after_def raise_def)

lemma bind_ext_Inr: "bind (ext c (Inr x)) k = after [c] (k x)"
  by (simp add: ext_def bind_Inr)

lemma bind_ext_Inl: "bind (ext c (Inl e)) k = ([c], Inl e)"
  by (simp add: ext_def bind_Inl)

lemma snd_after: "snd (after cs m) = snd m"
  by (simp add: after_def)

lemma fst_after: "fst (after cs m) = cs @ fst m"
  by (simp add: after_def)

lemma try_except_returns:
  assumes "\<And>e. \<exists>s. snd (h e) = Inr s" and "\<And>x. \<exists>s. snd (k x) = Inr s"
  shows "\<exists>s. snd (try_except m h k) = Inr s"
  using assms by (cases "snd m") (simp_all add: try_except_def snd_after)

lemma return_returns: "\<exists>s. snd (return x) = Inr s"
  by (simp add: return_def)

subsection \<open>The loops\<close>

lemma page_loop_texts:
  "page_loop acc (map Inr texts) =
     (replicate (length texts) extract_text_call, Inr (acc @ map or_empty texts))"
proof (induction texts arbitrary: acc)
  case Nil
  show ?case by (simp add: return_def)
next
  case (Cons t texts)
  show ?case by (simp add: bind_ext_Inr Cons.IH after_pair)
qed

lemma page_loop_raises:
  "page_loop acc (map Inr texts @ Inl e # rest) =
     (replicate (Suc (length texts)) extract_text_call, Inl e)"
proof (induction texts arbitrary: acc)
  case Nil
  show ?case by (simp add: bind_ext_Inl)
next
  case (Cons t texts)
  show ?case by (simp add: bind_ext_Inr Cons.IH after_pair)
qed

lemma page_loop_calls: "set (fst (page_loop acc pages)) \<subseteq> {extract_text_call}"
proof (induction pages arbitrary: acc)
  case Nil
  show ?case by (simp add: return_def)
next
  case (Cons p pages)
  show ?case
  proof (cases p)
    case (Inl e)
    then show ?thesis by (simp add: bind_ext_Inl)
  next
    case (Inr t)
    then show ?thesis using Cons.IH by (simp add: bind_ext_Inr fst_after)
  qed
qed



lemma page_loop_Inr:
  "snd (page_loop acc pages) = Inr tp \<Longrightarrow>
     \<exists>texts. pages = map Inr texts \<and> tp = acc @ map or_empty texts"
proof (induction pages arbitrary: acc)
  case Nil
  then show ?case by (simp add: return_def)
next
  case (Cons p pages)
  show ?case
  proof (cases p)
    case (Inl e)
    with Cons.prems show ?thesis by (simp add: bind_ext_Inl)
  next
    case (Inr t)
    with Cons.prems have "snd (page_loop (acc @ [or_empty t]) pages) = Inr tp"
      by (simp add: bind_ext_Inr snd_after)
    from Cons.IH [OF this] obtain texts
      where "pages = map Inr texts" and "tp = (acc @ [or_empty t]) @ map or_empty texts"
      by blast
    with Inr have "p # pages = map Inr (t # texts) \<and> tp = acc @ map or_empty (t # texts)"
      by simp
    then show ?thesis by (rule exI)
  qed
qed

subsection \<open>Direct extraction\<close>

lemma direct_text_found:
  assumes "PyPDF2 libs = Some PdfReader"
    and "PdfReader pdf_bytes = Inr (map Inr texts)"
    and "strip (join nl (map or_empty texts)) \<noteq> []"
  shows "extract_text_from_pdf_bytes libs pdf_bytes use_ocr =
    (PdfReader_call # replicate (length texts) extract_text_call,
     Inr (strip (join nl (map or_empty texts))))"
  using assms
  by (simp add: extract_text_from_pdf_bytes_def bind_ext_Inr page_loop_texts after_pair
      try_except_Inr after_return)

lemma no_text_no_ocr:
  assumes "PyPDF2 libs = Some PdfReader"
    and "PdfReader pdf_bytes = Inr (map Inr texts)"
    and "strip (join nl (map or_empty texts)) = []"
  shows "extract_text_from_pdf_bytes libs pdf_bytes False =
    (PdfReader_call # replicate (length texts) extract_text_call,
     Inr (lit ''No extractable text found. Try enabling OCR.''))"
  using assms
  by (simp add: extract_text_from_pdf_bytes_def bind_ext_Inr page_loop_texts after_pair
      try_except_Inr after_return)

lemma reader_raises:
  assumes "PyPDF2 libs = Some PdfReader"
    and "PdfReader pdf_bytes = Inl e"
  shows "extract_text_from_pdf_bytes libs pdf_bytes use_ocr =
    ([PdfReader_call], Inr (lit ''PDF extraction error: '' @ message e))"
  using assms
  by (simp add: extract_text_from_pdf_bytes_def bind_ext_Inl try_except_Inl after_return)

lemma page_raises:
  assumes "PyPDF2 libs = Some PdfReader"
    and "PdfReader pdf_bytes = Inr (map Inr texts @ Inl e # rest)"
  shows "extract_text_from_pdf_bytes libs pdf_bytes use_ocr =
    (PdfReader_call # replicate (Suc (length texts)) extract_text_call,
     Inr (lit ''PDF extraction error: '' @ message e))"
  using assms
  by (simp add: extract_text_from_pdf_bytes_def bind_ext_Inr page_loop_raises after_pair
      try_except_Inl after_return del: replicate_Suc)

lemma no_PyPDF2:
  assumes "PyPDF2 libs = None"
  shows "extract_text_from_pdf_bytes libs pdf_bytes use_ocr =
    ([], Inr (lit ''PyPDF2 not installed. Install with: pip install PyPDF2''))"
  using assms by (simp add: extract_text_from_pdf_bytes_def return_def)

lemma pages_split:
  "(\<exists>texts. pages = map Inr texts) \<or> (\<exists>texts e rest. pages = map Inr texts @ Inl e # rest)"
proof (induction pages)
  case Nil
  show ?case by simp
next
  case (Cons p pages)
  show ?case
  proof (cases p)
    case (Inl e)
    then have "p # pages = map Inr [] @ Inl e # pages" by simp
    then have "\<exists>texts e rest. p # pages = map Inr texts @ Inl e # rest" by (intro exI)
    then show ?thesis by (rule disjI2)
  next
    case (Inr t)
    from Cons.IH show ?thesis
    proof
      assume "\<exists>texts. pages = map Inr texts"
      then obtain texts where "pages = map Inr texts" by blast
      with Inr have "p # pages = map Inr (t # texts)" by simp
      then have "\<exists>texts. p # pages = map Inr texts" by (rule exI)
      then show ?thesis by (rule disjI1)
    next
      assume "\<exists>texts e rest. pages = map Inr texts @ Inl e # rest"
      then obtain texts e rest where "pages = map Inr texts @ Inl e # rest" by blast
      with Inr have "p # pages = map Inr (t # texts) @ Inl e # rest" by simp
      then have "\<exists>texts e rest. p # pages = map Inr texts @ Inl e # rest" by (intro exI)
      then show ?thesis by (rule disjI2)
    qed
  qed
qed

subsection \<open>The OCR branch\<close>

lemma comprehension_outs:
  "map r xs = map Inr ys \<Longrightarrow>
     comprehension (\<lambda>x. ext c (r x)) xs = (replicate (length xs) c, Inr ys)"
proof (induction xs arbitrary: ys)
  case Nil
  then show ?case by (simp add: return_def)
next
  case (Cons x xs)
  from Cons.prems obtain y ys' where ys: "ys = y # ys'" and x: "r x = Inr y"
    and rest: "map r xs = map Inr ys'"
    by (cases ys) auto
  show ?case
    by (simp add: x ys bind_ext_Inr Cons.IH [OF rest] bind_Inr after_pair after_return)
qed

lemma comprehension_raises:
  "map r pre = map Inr ys \<Longrightarrow> r x = Inl e \<Longrightarrow>
     comprehension (\<lambda>x. ext c (r x)) (pre @ x # post) = (replicate (Suc (length pre)) c, Inl e)"
proof (induction pre arbitrary: ys)
  case Nil
  then show ?case by (simp add: bind_ext_Inl)
next
  case (Cons p pre)
  from Cons.prems obtain y ys' where p: "r p = Inr y" and rest: "map r pre = map Inr ys'"
    by (cases ys) auto
  show ?case
    by (simp add: p bind_ext_Inr Cons.IH [OF rest Cons.prems(2)] bind_Inl after_pair)
qed

lemma snd_bind:
  "snd (bind m k) = (case snd m of Inl e \<Rightarrow> Inl e | Inr x \<Rightarrow> snd (k x))"
  by (simp add: bind_def try_except_def after_def raise_def split: sum.splits)

lemma snd_ext: "snd (ext c r) = r"
  by (simp add: ext_def)

lemma comprehension_Inr:
  "snd (comprehension (\<lambda>x. ext c (r x)) xs) = Inr ys \<Longrightarrow> map r xs = map Inr ys"
proof (induction xs arbitrary: ys)
  case Nil
  then show ?case by (simp add: return_def)
next
  case (Cons x xs)
  from Cons.prems obtain y ys' where x: "r x = Inr y"
    and rest: "snd (comprehension (\<lambda>x. ext c (r x)) xs) = Inr ys'" and ys: "ys = y # ys'"
    by (auto simp: snd_bind snd_ext return_def split: sum.splits)
  from Cons.IH [OF rest] x ys show ?case by simp
qed

lemma ocr_text:
  assumes "PyPDF2 libs = Some PdfReader"
    and "PdfReader pdf_bytes = Inr (map Inr texts)"
    and "strip (join nl (map or_empty texts)) = []"
    and "pdf2image libs = Inr convert_from_bytes"
    and "pytesseract libs = Inr image_to_string"
    and "convert_from_bytes pdf_bytes = Inr images"
    and "map image_to_string images = map Inr ocr_text"
  shows "extract_text_from_pdf_bytes libs pdf_bytes True =
    (PdfReader_call # replicate (length texts) extract_text_call @
       [import_pdf2image, import_pytesseract, convert_from_bytes_call] @
       replicate (length images) image_to_string_call,
     Inr (join nl ocr_text))"
  using assms
  by (simp add: extract_text_from_pdf_bytes_def bind_ext_Inr page_loop_texts after_pair
      try_except_Inr after_return comprehension_outs bind_Inr)

lemma ocr_import_pdf2image_raises:
  assumes "PyPDF2 libs = Some PdfReader"
    and "PdfReader pdf_bytes = Inr (map Inr texts)"
    and "strip (join nl (map or_empty texts)) = []"
    and "pdf2image libs = Inl e"
  shows "extract_text_from_pdf_bytes libs pdf_bytes True =
    (PdfReader_call # replicate (length texts) extract_text_call @ [import_pdf2image],
     Inr (lit ''OCR dependencies missing. Install pdf2image and pytesseract to enable OCR.''))"
  using assms
  by (simp add: extract_text_from_pdf_bytes_def bind_ext_Inr bind_ext_Inl page_loop_texts
      after_pair try_except_Inr try_except_Inl after_return)

lemma ocr_import_pytesseract_raises:
  assumes "PyPDF2 libs = Some PdfReader"
    and "PdfReader pdf_bytes = Inr (map Inr texts)"
    and "strip (join nl (map or_empty texts)) = []"
    and "pdf2image libs = Inr convert_from_bytes"
    and "pytesseract libs = Inl e"
  shows "extract_text_from_pdf_bytes libs pdf_bytes True =
    (PdfReader_call # replicate (length texts) extract_text_call @
       [import_pdf2image, import_pytesseract],
     Inr (lit ''OCR dependencies missing. Install pdf2image and pytesseract to enable OCR.''))"
  using assms
  by (simp add: extract_text_from_pdf_bytes_def bind_ext_Inr bind_ext_Inl page_loop_texts
      after_pair try_except_Inr try_except_Inl after_return)

lemma ocr_convert_raises:
  assumes "PyPDF2 libs = Some PdfReader"
    and "PdfReader pdf_bytes = Inr (map Inr texts)"
    and "strip (join nl (map or_empty texts)) = []"
    and "pdf2image libs = Inr convert_from_bytes"
    and "pytesseract libs = Inr image_to_string"
    and "convert_from_bytes pdf_bytes = Inl e"
  shows "extract_text_from_pdf_bytes libs pdf_bytes True =
    (PdfReader_call # replicate (length texts) extract_text_call @
       [import_pdf2image, import_pytesseract, convert_from_bytes_call],
     Inr (lit ''OCR extraction failed: '' @ message e))"
  using assms
  by (simp add: extract_text_from_pdf_bytes_def bind_ext_Inr bind_ext_Inl page_loop_texts
      after_pair try_except_Inr try_except_Inl after_return)

lemma ocr_image_raises:
  assumes "PyPDF2 libs = Some PdfReader"
    and "PdfReader pdf_bytes = Inr (map Inr texts)"
    and "strip (join nl (map or_empty texts)) = []"
    and "pdf2image libs = Inr convert_from_bytes"
    and "pytesseract libs = Inr image_to_string"
    and "convert_from_bytes pdf_bytes = Inr (pre @ img # post)"
    and "map image_to_string pre = map Inr ocr_text"
    and "image_to_string img = Inl e"
  shows "extract_text_from_pdf_bytes libs pdf_bytes True =
    (PdfReader_call # replicate (length texts) extract_text_call @
       [import_pdf2image, import_pytesseract, convert_from_bytes_call] @
       replicate (Suc (length pre)) image_to_string_call,
     Inr (lit ''OCR extraction failed: '' @ message e))"
  using assms(1-6) comprehension_raises [OF assms(7,8), of image_to_string_call post]
  by (simp add: extract_text_from_pdf_bytes_def bind_ext_Inr page_loop_texts
      after_pair try_except_Inr try_except_Inl after_return bind_Inl del: replicate_Suc)

subsection \<open>Extraction\<close>

lemma extract_returns:
  "\<exists>s. snd (extract_text_from_pdf_bytes libs pdf_bytes use_ocr) = Inr s"
  by (auto simp: extract_text_from_pdf_bytes_def Let_def return_def
      split: option.splits prod.splits intro!: try_except_returns)

text \<open>
  Claim C1. With the PDF library available, when the reader finds the pages of the
  document and the text of some page has a character that is not whitespace,
  \<open>extract_text_from_pdf_bytes\<close> returns, for either value of \<open>use_ocr\<close>, a string \<open>s\<close>
  that is not empty and is the join of the page texts (the empty string for a page
  without text) by the line feed, code point 10, trimmed: the join is \<open>s\<close> between a run
  of whitespace before it and one after it, and \<open>s\<close> neither begins nor ends with
  whitespace.
\<close>

theorem direct_text_returned:
  assumes "PyPDF2 libs = Some PdfReader"
    and "PdfReader pdf_bytes = Inr (map Inr texts)"
    and "t \<in> set texts" and "c \<in> set (or_empty t)" and "\<not> isspace c"
  shows "\<exists>s pre post. snd (extract_text_from_pdf_bytes libs pdf_bytes use_ocr) = Inr s \<and>
           s \<noteq> [] \<and>
           join [10] (map or_empty texts) = pre @ s @ post \<and>
           (\<forall>c \<in> set pre. isspace c) \<and> (\<forall>c \<in> set post. isspace c) \<and>
           \<not> isspace (hd s) \<and> \<not> isspace (last s)"
proof -
  let ?j = "join [10] (map or_empty texts)"
  from assms(3) have "set (or_empty t) \<subseteq> set ?j"
    by (intro set_join) simp
  with assms(4) have "c \<in> set ?j"
    by blast
  from this assms(5) have n: "strip ?j \<noteq> []"
    by (rule strip_nonempty)
  then have "strip (join nl (map or_empty texts)) \<noteq> []"
    by (simp add: nl_def)
  from direct_text_found [OF assms(1,2) this, of use_ocr]
  have r: "snd (extract_text_from_pdf_bytes libs pdf_bytes use_ocr) = Inr (strip ?j)"
    by (simp add: nl_def)
  from strip_inside [of ?j] obtain pre post where "?j = pre @ strip ?j @ post"
    and "\<forall>c \<in> set pre. isspace c" and "\<forall>c \<in> set post. isspace c"
    by blast
  with r n strip_ends [OF n] show ?thesis by blast
qed

theorem direct_text_returned_witness:
  "snd (extract_text_from_pdf_bytes
      (\<lparr>PyPDF2 = Some (reader_of [Inr (Some [9, 32, 72, 105, 32]), Inr None,
                                   Inr (Some [116, 111, 160, 10])]),
        pdf2image = Inl (not_installed ''pdf2image''),
        pytesseract = Inl (not_installed ''pytesseract'')\<rparr> :: nat libs) [] False) =
     Inr [72, 105, 32, 10, 10, 116, 111]"
proof -
  let ?libs = "\<lparr>PyPDF2 = Some (reader_of [Inr (Some [9, 32, 72, 105, 32]), Inr None,
                                  Inr (Some [116, 111, 160, 10])]),
       pdf2image = Inl (not_installed ''pdf2image''),
       pytesseract = Inl (not_installed ''pytesseract'')\<rparr> :: nat libs"
  let ?texts = "[Some [9, 32, 72, 105, 32], None, Some [116, 111, 160, 10]]"
  let ?l = "[9, 32, 72, 105, 32, 10, 10, 116, 111, 160, 10] :: str"
  have h: "PyPDF2 ?libs = Some (reader_of [Inr (Some [9, 32, 72, 105, 32]), Inr None,
      Inr (Some [116, 111, 160, 10])])"
    "reader_of [Inr (Some [9, 32, 72, 105, 32]), Inr None, Inr (Some [116, 111, 160, 10])] [] =
       Inr (map Inr ?texts)"
    "Some [9, 32, 72, 105, 32] \<in> set ?texts"
    "72 \<in> set (or_empty (Some [9, 32, 72, 105, 32]))"
    "\<not> isspace 72"
    by (simp_all add: reader_of_def isspace_def)
  have j: "join [10] (map or_empty ?texts) = ?l"
    by simp
  from direct_text_returned [OF h, of False]
  obtain s pre post where r: "snd (extract_text_from_pdf_bytes ?libs [] False) = Inr s"
    and d: "?l = pre @ s @ post"
    and pre: "\<forall>c \<in> set pre. isspace c" and post: "\<forall>c \<in> set post. isspace c"
    and s: "s \<noteq> []" "\<not> isspace (hd s)" "\<not> isspace (last s)"
    unfolding j by blast
  from d pre post s have "strip ?l = s"
    by (rule strip_unique)
  moreover have "strip ?l = [72, 105, 32, 10, 10, 116, 111]"
    by (simp add: strip_def isspace_def)
  ultimately show ?thesis using r by simp
qed

text \<open>
  Claim C2. For every behaviour of the libraries, every byte sequence (the empty one
  included) and either value of \<open>use_ocr\<close>, \<open>extract_text_from_pdf_bytes\<close> ends
  with a string and never with an exception. A fault of the reader or of a page gives
  the message \<open>PDF extraction error: ...\<close>, a failed import of an OCR dependency the
  message naming the dependencies, and a fault of the rasterizer or of the recognition of
  an image the message \<open>OCR extraction failed: ...\<close>.
\<close>

theorem extract_never_raises:
  "(\<exists>s. snd (extract_text_from_pdf_bytes libs pdf_bytes use_ocr) = Inr s) \<and>
   (PyPDF2 libs = Some PdfReader \<longrightarrow>
      (PdfReader pdf_bytes = Inl e \<or> PdfReader pdf_bytes = Inr (map Inr texts' @ Inl e # rest) \<longrightarrow>
         snd (extract_text_from_pdf_bytes libs pdf_bytes use_ocr) =
           Inr (lit ''PDF extraction error: '' @ message e)) \<and>
      (PdfReader pdf_bytes = Inr (map Inr texts) \<and> strip (join nl (map or_empty texts)) = [] \<longrightarrow>
         (pdf2image libs = Inl e \<or>
          pdf2image libs = Inr convert_from_bytes \<and> pytesseract libs = Inl e \<longrightarrow>
            snd (extract_text_from_pdf_bytes libs pdf_bytes True) = Inr (lit
              ''OCR dependencies missing. Install pdf2image and pytesseract to enable OCR.'')) \<and>
         (pdf2image libs = Inr convert_from_bytes \<and> pytesseract libs = Inr image_to_string \<and>
          (convert_from_bytes pdf_bytes = Inl e \<or>
           convert_from_bytes pdf_bytes = Inr (pre @ img # post) \<and>
           map image_to_string pre = map Inr ocr_text \<and> image_to_string img = Inl e) \<longrightarrow>
            snd (extract_text_from_pdf_bytes libs pdf_bytes True) =
              Inr (lit ''OCR extraction failed: '' @ message e))))"
proof -
  have "\<exists>s. snd (extract_text_from_pdf_bytes libs pdf_bytes use_ocr) = Inr s"
    by (rule extract_returns)
  moreover have "snd (extract_text_from_pdf_bytes libs pdf_bytes use_ocr) =
      Inr (lit ''PDF extraction error: '' @ message e)"
    if "PyPDF2 libs = Some PdfReader"
      and "PdfReader pdf_bytes = Inl e \<or> PdfReader pdf_bytes = Inr (map Inr texts' @ Inl e # rest)"
    using that by (auto simp: reader_raises page_raises)
  moreover have "snd (extract_text_from_pdf_bytes libs pdf_bytes True) = Inr (lit
      ''OCR dependencies missing. Install pdf2image and pytesseract to enable OCR.'')"
    if "PyPDF2 libs = Some PdfReader" and "PdfReader pdf_bytes = Inr (map Inr texts)"
      and "strip (join nl (map or_empty texts)) = []"
      and "pdf2image libs = Inl e \<or>
        pdf2image libs = Inr convert_from_bytes \<and> pytesseract libs = Inl e"
    using that by (auto simp: ocr_import_pdf2image_raises ocr_import_pytesseract_raises)
  moreover have "snd (extract_text_from_pdf_bytes libs pdf_bytes True) =
      Inr (lit ''OCR extraction failed: '' @ message e)"
    if "PyPDF2 libs = Some PdfReader" and "PdfReader pdf_bytes = Inr (map Inr texts)"
      and "strip (join nl (map or_empty texts)) = []"
      and "pdf2image libs = Inr convert_from_bytes" and "pytesseract libs = Inr image_to_string"
      and "convert_from_bytes pdf_bytes = Inl e \<or>
        convert_from_bytes pdf_bytes = Inr (pre @ img # post) \<and>
        map image_to_string pre = map Inr ocr_text \<and> image_to_string img = Inl e"
    using that by (auto simp: ocr_convert_raises ocr_image_raises)
  ultimately show ?thesis by blast
qed

theorem extract_never_raises_witness:
  "snd (extract_text_from_pdf_bytes
      (\<lparr>PyPDF2 = Some (broken_reader (Exception (lit ''Cannot read an empty file''))), pdf2image = Inl (not_installed ''pdf2image''),
       pytesseract = Inl (not_installed ''pytesseract'')\<rparr> :: nat libs) [] False) =
     Inr (lit ''PDF extraction error: Cannot read an empty file'') \<and>
   snd (extract_text_from_pdf_bytes
      (\<lparr>PyPDF2 = Some (reader_of [Inr (Some (lit ''a'')), Inl (Exception (lit ''bad page'')), Inr None]), pdf2image = Inl (not_installed ''pdf2image''),
       pytesseract = Inl (not_installed ''pytesseract'')\<rparr> :: nat libs) [37, 80] True) =
     Inr (lit ''PDF extraction error: bad page'') \<and>
   snd (extract_text_from_pdf_bytes
      \<lparr>PyPDF2 = Some (reader_of [Inr None]), pdf2image = Inl (not_installed ''pdf2image''),
       pytesseract = Inr (recognizer [])\<rparr> [37, 80] True) =
     Inr (lit ''OCR dependencies missing. Install pdf2image and pytesseract to enable OCR.'') \<and>
   snd (extract_text_from_pdf_bytes
      \<lparr>PyPDF2 = Some (reader_of [Inr None]), pdf2image = Inr (rasterizer [0]),
       pytesseract = Inl (not_installed ''pytesseract'')\<rparr> [37, 80] True) =
     Inr (lit ''OCR dependencies missing. Install pdf2image and pytesseract to enable OCR.'') \<and>
   snd (extract_text_from_pdf_bytes
      \<lparr>PyPDF2 = Some (reader_of [Inr None]), pdf2image = Inr (broken_rasterizer (Exception (lit ''poppler not found''))),
       pytesseract = Inr (recognizer [])\<rparr> [37, 80] True) =
     Inr (lit ''OCR extraction failed: poppler not found'') \<and>
   snd (extract_text_from_pdf_bytes
      \<lparr>PyPDF2 = Some (reader_of [Inr None]), pdf2image = Inr (rasterizer [0, 1]),
       pytesseract = Inr (recognizer [lit ''x''])\<rparr> [37, 80] True) =
     Inr (lit ''OCR extraction failed: cannot read image'')"
proof -
  note ev = reader_of_def broken_reader_def rasterizer_def broken_rasterizer_def
    recognizer_def not_installed_def strip_def nl_def lit_def isspace_def
  have "snd (extract_text_from_pdf_bytes
      (\<lparr>PyPDF2 = Some (broken_reader (Exception (lit ''Cannot read an empty file''))), pdf2image = Inl (not_installed ''pdf2image''),
       pytesseract = Inl (not_installed ''pytesseract'')\<rparr> :: nat libs) [] False) =
     Inr (lit ''PDF extraction error: Cannot read an empty file'')"
    using extract_never_raises [where libs = "(\<lparr>PyPDF2 = Some (broken_reader (Exception (lit ''Cannot read an empty file''))), pdf2image = Inl (not_installed ''pdf2image''),
       pytesseract = Inl (not_installed ''pytesseract'')\<rparr> :: nat libs)"
        and PdfReader = "broken_reader (Exception (lit ''Cannot read an empty file''))"
        and pdf_bytes = "[]" and use_ocr = False
        and e = "Exception (lit ''Cannot read an empty file'')"]
    by (simp add: ev)
  moreover have "snd (extract_text_from_pdf_bytes
      (\<lparr>PyPDF2 = Some (reader_of [Inr (Some (lit ''a'')), Inl (Exception (lit ''bad page'')), Inr None]), pdf2image = Inl (not_installed ''pdf2image''),
       pytesseract = Inl (not_installed ''pytesseract'')\<rparr> :: nat libs) [37, 80] True) =
     Inr (lit ''PDF extraction error: bad page'')"
    using extract_never_raises [where libs = "(\<lparr>PyPDF2 = Some (reader_of [Inr (Some (lit ''a'')), Inl (Exception (lit ''bad page'')), Inr None]), pdf2image = Inl (not_installed ''pdf2image''),
       pytesseract = Inl (not_installed ''pytesseract'')\<rparr> :: nat libs)"
        and PdfReader = "reader_of [Inr (Some (lit ''a'')), Inl (Exception (lit ''bad page'')), Inr None]"
        and pdf_bytes = "[37, 80]" and use_ocr = True
        and e = "Exception (lit ''bad page'')" and texts' = "[Some (lit ''a'')]"
        and rest = "[Inr None]"]
    by (simp add: ev)
  moreover have "snd (extract_text_from_pdf_bytes
      \<lparr>PyPDF2 = Some (reader_of [Inr None]), pdf2image = Inl (not_installed ''pdf2image''),
       pytesseract = Inr (recognizer [])\<rparr> [37, 80] True) =
     Inr (lit ''OCR dependencies missing. Install pdf2image and pytesseract to enable OCR.'')"
    using extract_never_raises [where libs = "\<lparr>PyPDF2 = Some (reader_of [Inr None]), pdf2image = Inl (not_installed ''pdf2image''),
       pytesseract = Inr (recognizer [])\<rparr>"
        and PdfReader = "reader_of [Inr None]" and pdf_bytes = "[37, 80]" and texts = "[None]"
        and e = "not_installed ''pdf2image''"]
    by (simp add: ev)
  moreover have "snd (extract_text_from_pdf_bytes
      \<lparr>PyPDF2 = Some (reader_of [Inr None]), pdf2image = Inr (rasterizer [0]),
       pytesseract = Inl (not_installed ''pytesseract'')\<rparr> [37, 80] True) =
     Inr (lit ''OCR dependencies missing. Install pdf2image and pytesseract to enable OCR.'')"
    using extract_never_raises [where libs = "\<lparr>PyPDF2 = Some (reader_of [Inr None]), pdf2image = Inr (rasterizer [0]),
       pytesseract = Inl (not_installed ''pytesseract'')\<rparr>"
        and PdfReader = "reader_of [Inr None]" and pdf_bytes = "[37, 80]" and texts = "[None]"
        and convert_from_bytes = "rasterizer [0]"
        and e = "not_installed ''pytesseract''"]
    by (simp add: ev)
  moreover have "snd (extract_text_from_pdf_bytes
      \<lparr>PyPDF2 = Some (reader_of [Inr None]), pdf2image = Inr (broken_rasterizer (Exception (lit ''poppler not found''))),
       pytesseract = Inr (recognizer [])\<rparr> [37, 80] True) =
     Inr (lit ''OCR extraction failed: poppler not found'')"
    using extract_never_raises [where libs = "\<lparr>PyPDF2 = Some (reader_of [Inr None]), pdf2image = Inr (broken_rasterizer (Exception (lit ''poppler not found''))),
       pytesseract = Inr (recognizer [])\<rparr>"
        and PdfReader = "reader_of [Inr None]" and pdf_bytes = "[37, 80]" and texts = "[None]"
        and convert_from_bytes = "broken_rasterizer (Exception (lit ''poppler not found''))"
        and image_to_string = "recognizer []"
        and e = "Exception (lit ''poppler not found'')"]
    by (simp add: ev)
  moreover have "snd (extract_text_from_pdf_bytes
      \<lparr>PyPDF2 = Some (reader_of [Inr None]), pdf2image = Inr (rasterizer [0, 1]),
       pytesseract = Inr (recognizer [lit ''x''])\<rparr> [37, 80] True) =
     Inr (lit ''OCR extraction failed: cannot read image'')"
    using extract_never_raises [where libs = "\<lparr>PyPDF2 = Some (reader_of [Inr None]), pdf2image = Inr (rasterizer [0, 1]),
       pytesseract = Inr (recognizer [lit ''x''])\<rparr>"
        and PdfReader = "reader_of [Inr None]" and pdf_bytes = "[37, 80]" and texts = "[None]"
        and convert_from_bytes = "rasterizer [0, 1]"
        and image_to_string = "recognizer [lit ''x'']"
        and pre = "[0]" and img = 1 and post = "[]" and ocr_text = "[lit ''x'']"
        and e = "Exception (lit ''cannot read image'')"]
    by (simp add: ev)
  ultimately show ?thesis by blast
qed

text \<open>
  Claim C9. When the trimmed newline-join of the page texts is not empty,
  \<open>extract_text_from_pdf_bytes\<close> returns it for both values of \<open>use_ocr\<close> after calling
  only the reader and each page's \<open>extract_text\<close>: neither OCR import is run, nothing is
  rasterized and no image is recognized, whatever the OCR libraries would do.
\<close>

theorem direct_text_skips_ocr:
  assumes "PyPDF2 libs = Some PdfReader"
    and "PdfReader pdf_bytes = Inr (map Inr texts)"
    and "strip (join nl (map or_empty texts)) \<noteq> []"
  shows "\<forall>use_ocr.
    extract_text_from_pdf_bytes libs pdf_bytes use_ocr =
      (PdfReader_call # replicate (length texts) extract_text_call,
       Inr (strip (join nl (map or_empty texts)))) \<and>
    set (fst (extract_text_from_pdf_bytes libs pdf_bytes use_ocr)) \<inter>
      {import_pdf2image, import_pytesseract, convert_from_bytes_call, image_to_string_call} = {}"
  using assms by (auto simp: direct_text_found)

theorem direct_text_skips_ocr_witness:
  "extract_text_from_pdf_bytes
      \<lparr>PyPDF2 = Some (reader_of [Inr (Some (lit ''Lease'')), Inr (Some (lit ''terms ''))]),
       pdf2image = Inr (rasterizer [0, 1]),
       pytesseract = Inr (recognizer [lit ''scan'', lit ''ned''])\<rparr> [37, 80] True =
     ([PdfReader_call, extract_text_call, extract_text_call],
      Inr (lit ''Lease'' @ nl @ lit ''terms''))"
  using direct_text_skips_ocr [of
      "\<lparr>PyPDF2 = Some (reader_of [Inr (Some (lit ''Lease'')), Inr (Some (lit ''terms ''))]),
       pdf2image = Inr (rasterizer [0, 1]),
       pytesseract = Inr (recognizer [lit ''scan'', lit ''ned''])\<rparr>"
      "reader_of [Inr (Some (lit ''Lease'')), Inr (Some (lit ''terms ''))]"
      "[37, 80]" "[Some (lit ''Lease''), Some (lit ''terms '')]"]
  by (simp add: reader_of_def strip_def nl_def lit_def isspace_def)

text \<open>
  Claim C7. When the document has pages but no direct text, \<open>use_ocr\<close> is set, both OCR
  imports succeed, the rasterizer yields the images of the pages and the recognizer
  reads every image, \<open>extract_text_from_pdf_bytes\<close> returns the texts read from the
  images, in the order of the images, joined by the line feed, code point 10 (for two
  images the first text, a line feed and the second text); the rasterizer is called once
  and the recognizer once per image.
\<close>

theorem ocr_text_joined:
  assumes "PyPDF2 libs = Some PdfReader"
    and "PdfReader pdf_bytes = Inr (map Inr texts)"
    and "strip (join nl (map or_empty texts)) = []"
    and "pdf2image libs = Inr convert_from_bytes"
    and "pytesseract libs = Inr image_to_string"
    and "convert_from_bytes pdf_bytes = Inr images"
    and "map image_to_string images = map Inr ocr_text"
  shows "snd (extract_text_from_pdf_bytes libs pdf_bytes True) = Inr (join [10] ocr_text) \<and>
    (\<forall>t0 t1. ocr_text = [t0, t1] \<longrightarrow>
       snd (extract_text_from_pdf_bytes libs pdf_bytes True) = Inr (t0 @ 10 # t1)) \<and>
    length ocr_text = length images \<and>
    filter (\<lambda>c. c \<in> {convert_from_bytes_call, image_to_string_call})
      (fst (extract_text_from_pdf_bytes libs pdf_bytes True)) =
      convert_from_bytes_call # replicate (length images) image_to_string_call"
proof -
  from assms(7) have "length images = length ocr_text"
    by (rule map_eq_imp_length_eq)
  then show ?thesis using ocr_text [OF assms] by (auto simp: nl_def)
qed

theorem ocr_text_joined_witness:
  "snd (extract_text_from_pdf_bytes
      \<lparr>PyPDF2 = Some (reader_of [Inr None, Inr (Some [32])]),
       pdf2image = Inr (rasterizer [0, 1]),
       pytesseract = Inr (recognizer [[112, 49, 32], [112, 50]])\<rparr> [37, 80] True) =
     Inr [112, 49, 32, 10, 112, 50]"
proof -
  have h: "PyPDF2 \<lparr>PyPDF2 = Some (reader_of [Inr None, Inr (Some [32])]),
       pdf2image = Inr (rasterizer [0, 1]),
       pytesseract = Inr (recognizer [[112, 49, 32], [112, 50]])\<rparr> =
      Some (reader_of [Inr None, Inr (Some [32])])"
    "reader_of [Inr None, Inr (Some [32])] [37, 80] = Inr (map Inr [None, Some [32]])"
    "strip (join nl (map or_empty [None, Some [32]])) = []"
    "pdf2image \<lparr>PyPDF2 = Some (reader_of [Inr None, Inr (Some [32])]),
       pdf2image = Inr (rasterizer [0, 1]),
       pytesseract = Inr (recognizer [[112, 49, 32], [112, 50]])\<rparr> = Inr (rasterizer [0, 1])"
    "pytesseract \<lparr>PyPDF2 = Some (reader_of [Inr None, Inr (Some [32])]),
       pdf2image = Inr (rasterizer [0, 1]),
       pytesseract = Inr (recognizer [[112, 49, 32], [112, 50]])\<rparr> =
      Inr (recognizer [[112, 49, 32], [112, 50]])"
    "rasterizer [0, 1] [37, 80] = Inr [0, 1]"
    "map (recognizer [[112, 49, 32], [112, 50]]) [0, 1] = map Inr [[112, 49, 32], [112, 50]]"
    by (simp_all add: reader_of_def rasterizer_def recognizer_def strip_def nl_def isspace_def)
  from ocr_text_joined [OF h]
  have "snd (extract_text_from_pdf_bytes
      \<lparr>PyPDF2 = Some (reader_of [Inr None, Inr (Some [32])]),
       pdf2image = Inr (rasterizer [0, 1]),
       pytesseract = Inr (recognizer [[112, 49, 32], [112, 50]])\<rparr> [37, 80] True) =
     Inr (join [10] [[112, 49, 32], [112, 50]])"
    by (rule conjunct1)
  then show ?thesis by simp
qed

text \<open>
  Claim C8 fails on the OCR path: the direct path strips the joined text, the OCR path
  returns the join as it is. Here a scanned page is read as \<open>x\<close> followed by a newline
  and a form feed, and that is the result, untrimmed.
\<close>

theorem ocr_text_not_trimmed:
  "snd (extract_text_from_pdf_bytes
      \<lparr>PyPDF2 = Some (reader_of [Inr None]),
       pdf2image = Inr (rasterizer [0]),
       pytesseract = Inr (recognizer [lit ''x'' @ [10, 12]])\<rparr> [37, 80] True) =
     Inr (lit ''x'' @ [10, 12]) \<and>
   strip (lit ''x'' @ [10, 12]) = lit ''x'' \<and>
   strip (lit ''x'' @ [10, 12]) \<noteq> lit ''x'' @ [10, 12]"
  using ocr_text [of
      "\<lparr>PyPDF2 = Some (reader_of [Inr None]),
       pdf2image = Inr (rasterizer [0]),
       pytesseract = Inr (recognizer [lit ''x'' @ [10, 12]])\<rparr>"
      "reader_of [Inr None]" "[37, 80]" "[None]"
      "rasterizer [0]" "recognizer [lit ''x'' @ [10, 12]]" "[0]" "[lit ''x'' @ [10, 12]]"]
  by (simp add: reader_of_def rasterizer_def recognizer_def strip_def nl_def lit_def isspace_def)

subsection \<open>The sentinel\<close>

lemma outcomes_split:
  "(\<exists>ys. map r xs = map Inr ys) \<or>
   (\<exists>pre x post ys e. xs = pre @ x # post \<and> map r pre = map Inr ys \<and> r x = Inl e)"
proof (induction xs)
  case Nil
  show ?case by simp
next
  case (Cons a xs)
  show ?case
  proof (cases "r a")
    case (Inl e)
    then have "a # xs = [] @ a # xs \<and> map r [] = map Inr [] \<and> r a = Inl e" by simp
    then have "\<exists>pre x post ys e. a # xs = pre @ x # post \<and> map r pre = map Inr ys \<and> r x = Inl e"
      by (intro exI)
    then show ?thesis by (rule disjI2)
  next
    case (Inr y)
    from Cons.IH show ?thesis
    proof
      assume "\<exists>ys. map r xs = map Inr ys"
      then obtain ys where "map r xs = map Inr ys" by blast
      with Inr have "map r (a # xs) = map Inr (y # ys)" by simp
      then have "\<exists>ys. map r (a # xs) = map Inr ys" by (rule exI)
      then show ?thesis by (rule disjI1)
    next
      assume "\<exists>pre x post ys e. xs = pre @ x # post \<and> map r pre = map Inr ys \<and> r x = Inl e"
      then obtain pre x post ys e
        where "xs = pre @ x # post" and "map r pre = map Inr ys" and "r x = Inl e"
        by blast
      with Inr have "a # xs = (a # pre) @ x # post \<and> map r (a # pre) = map Inr (y # ys) \<and>
          r x = Inl e"
        by simp
      then have "\<exists>pre x post ys e. a # xs = pre @ x # post \<and> map r pre = map Inr ys \<and> r x = Inl e"
        by (intro exI)
      then show ?thesis by (rule disjI2)
    qed
  qed
qed

lemma sentinel_not_PyPDF2_message:
  "lit ''PyPDF2 not installed. Install with: pip install PyPDF2'' \<noteq>
     lit ''No extractable text found. Try enabling OCR.''"
  by (simp add: lit_def)

lemma sentinel_not_PDF_error:
  "lit ''PDF extraction error: '' @ m \<noteq> lit ''No extractable text found. Try enabling OCR.''"
  by (simp add: lit_def)

lemma sentinel_not_OCR_missing:
  "lit ''OCR dependencies missing. Install pdf2image and pytesseract to enable OCR.'' \<noteq>
     lit ''No extractable text found. Try enabling OCR.''"
  by (simp add: lit_def)

lemma sentinel_not_OCR_failed:
  "lit ''OCR extraction failed: '' @ m \<noteq> lit ''No extractable text found. Try enabling OCR.''"
  by (simp add: lit_def)

lemma sentinel_nonempty: "lit ''No extractable text found. Try enabling OCR.'' \<noteq> []"
  by (simp add: lit_def)

lemma sentinel_only_if_no_ocr:
  assumes "snd (extract_text_from_pdf_bytes libs pdf_bytes False) =
      Inr (lit ''No extractable text found. Try enabling OCR.'')"
  shows "\<exists>PdfReader texts. PyPDF2 libs = Some PdfReader \<and>
      PdfReader pdf_bytes = Inr (map Inr texts) \<and>
      (strip (join nl (map or_empty texts)) = [] \<or>
       strip (join nl (map or_empty texts)) = lit ''No extractable text found. Try enabling OCR.'')"
proof (cases "PyPDF2 libs")
  case None
  with assms show ?thesis by (simp add: no_PyPDF2 sentinel_not_PyPDF2_message)
next
  case (Some PdfReader)
  show ?thesis
  proof (cases "PdfReader pdf_bytes")
    case (Inl e)
    with Some assms show ?thesis by (simp add: reader_raises sentinel_not_PDF_error)
  next
    case (Inr pages)
    from pages_split [of pages] show ?thesis
    proof
      assume "\<exists>texts. pages = map Inr texts"
      then obtain texts where pages: "pages = map Inr texts" by blast
      have "strip (join nl (map or_empty texts)) = [] \<or>
          strip (join nl (map or_empty texts)) = lit ''No extractable text found. Try enabling OCR.''"
      proof (cases "strip (join nl (map or_empty texts)) = []")
        case True
        then show ?thesis by simp
      next
        case False
        with Some Inr pages assms show ?thesis by (simp add: direct_text_found)
      qed
      with Some Inr pages show ?thesis by blast
    next
      assume "\<exists>texts e rest. pages = map Inr texts @ Inl e # rest"
      then obtain texts e rest where "pages = map Inr texts @ Inl e # rest" by blast
      with Some Inr assms show ?thesis by (simp add: page_raises sentinel_not_PDF_error)
    qed
  qed
qed

text \<open>
  Claim C6, amended. When the reader finds the pages and the trimmed join of their texts is
  empty, \<open>extract_text_from_pdf_bytes\<close> without OCR returns exactly the message telling
  the caller to enable OCR. Without OCR it returns that string in one more case only:
  when the trimmed text of the document is itself that very sentence, which is then
  returned as the extracted text.
\<close>

theorem enable_ocr_sentinel:
  "(PyPDF2 libs = Some PdfReader \<and> PdfReader pdf_bytes = Inr (map Inr texts) \<and>
    strip (join nl (map or_empty texts)) = [] \<longrightarrow>
      snd (extract_text_from_pdf_bytes libs pdf_bytes False) =
        Inr (lit ''No extractable text found. Try enabling OCR.'')) \<and>
   (snd (extract_text_from_pdf_bytes libs pdf_bytes False) =
      Inr (lit ''No extractable text found. Try enabling OCR.'') \<longrightarrow>
      (\<exists>PdfReader texts. PyPDF2 libs = Some PdfReader \<and>
         PdfReader pdf_bytes = Inr (map Inr texts) \<and>
         (strip (join nl (map or_empty texts)) = [] \<or>
          strip (join nl (map or_empty texts)) =
            lit ''No extractable text found. Try enabling OCR.'')))"
  using sentinel_only_if_no_ocr [of libs pdf_bytes] by (simp add: no_text_no_ocr)

theorem enable_ocr_sentinel_witness:
  "snd (extract_text_from_pdf_bytes
      (\<lparr>PyPDF2 = Some (reader_of [Inr None, Inr (Some [32, 10])]),
        pdf2image = Inl (not_installed ''pdf2image''),
        pytesseract = Inl (not_installed ''pytesseract'')\<rparr> :: nat libs) [37, 80] False) =
     Inr (lit ''No extractable text found. Try enabling OCR.'') \<and>
   (\<exists>PdfReader texts.
      PyPDF2 (\<lparr>PyPDF2 = Some (reader_of [Inr None, Inr (Some [32, 10])]),
        pdf2image = Inl (not_installed ''pdf2image''),
        pytesseract = Inl (not_installed ''pytesseract'')\<rparr> :: nat libs) = Some PdfReader \<and>
      PdfReader [37, 80] = Inr (map Inr texts) \<and>
      (strip (join nl (map or_empty texts)) = [] \<or>
       strip (join nl (map or_empty texts)) =
         lit ''No extractable text found. Try enabling OCR.''))"
proof -
  let ?libs = "\<lparr>PyPDF2 = Some (reader_of [Inr None, Inr (Some [32, 10])]),
        pdf2image = Inl (not_installed ''pdf2image''),
        pytesseract = Inl (not_installed ''pytesseract'')\<rparr> :: nat libs"
  note t = enable_ocr_sentinel [of ?libs "reader_of [Inr None, Inr (Some [32, 10])]"
      "[37, 80]" "[None, Some [32, 10]]"]
  have "strip (join nl (map or_empty [None, Some [32, 10]])) = []"
    by (simp add: strip_def nl_def isspace_def)
  with t have r: "snd (extract_text_from_pdf_bytes ?libs [37, 80] False) =
      Inr (lit ''No extractable text found. Try enabling OCR.'')"
    by (simp add: reader_of_def)
  with t show ?thesis by blast
qed

text \<open>
  The claim as stated fails: a document whose one page reads as the sentinel sentence
  has non-empty text, and the string returned without OCR is the sentinel.
\<close>

theorem enable_ocr_sentinel_counterexample:
  "snd (extract_text_from_pdf_bytes
      (\<lparr>PyPDF2 = Some (reader_of
           [Inr (Some (lit ''No extractable text found. Try enabling OCR.''))]),
        pdf2image = Inl (not_installed ''pdf2image''),
        pytesseract = Inl (not_installed ''pytesseract'')\<rparr> :: nat libs) [37, 80] False) =
     Inr (lit ''No extractable text found. Try enabling OCR.'') \<and>
   strip (join nl (map or_empty
     [Some (lit ''No extractable text found. Try enabling OCR.'')])) \<noteq> []"
  using direct_text_found [of
      "\<lparr>PyPDF2 = Some (reader_of
           [Inr (Some (lit ''No extractable text found. Try enabling OCR.''))]),
        pdf2image = Inl (not_installed ''pdf2image''),
        pytesseract = Inl (not_installed ''pytesseract'')\<rparr> :: nat libs"
      "reader_of [Inr (Some (lit ''No extractable text found. Try enabling OCR.''))]"
      "[37, 80]" "[Some (lit ''No extractable text found. Try enabling OCR.'')]" False]
  by (simp add: reader_of_def strip_def nl_def lit_def isspace_def)

subsection \<open>OCR that reads nothing\<close>

lemma isspace_nl: "\<forall>c \<in> set nl. isspace c"
  by (simp add: nl_def isspace_def)

lemma join_whitespace:
  "(\<forall>t \<in> set ts. \<forall>c \<in> set t. isspace c) \<Longrightarrow> \<forall>c \<in> set (join nl ts). isspace c"
  using isspace_nl by (induction nl ts rule: join.induct) auto

lemma strip_whitespace:
  assumes "\<forall>c \<in> set s. isspace c"
  shows "strip s = []"
proof -
  from assms have d: "dropWhile isspace s = []" by (simp only: dropWhile_eq_Nil_conv)
  show ?thesis by (simp only: strip_def d rev.simps dropWhile.simps)
qed

lemma whitespace_not_message:
  assumes "\<forall>c \<in> set s. isspace c"
  shows "s \<noteq> lit ''No extractable text found. Try enabling OCR.''"
    and "s \<noteq> lit ''OCR dependencies missing. Install pdf2image and pytesseract to enable OCR.''"
    and "s \<noteq> lit ''PyPDF2 not installed. Install with: pip install PyPDF2''"
    and "s \<noteq> lit ''OCR extraction failed: '' @ m"
    and "s \<noteq> lit ''PDF extraction error: '' @ m"
  using assms by (auto simp: lit_def isspace_def)

lemma sentinel_only_if_ocr:
  assumes "snd (extract_text_from_pdf_bytes libs pdf_bytes True) = Inr (lit ''No extractable text found. Try enabling OCR.'')"
  shows "\<exists>PdfReader texts. PyPDF2 libs = Some PdfReader \<and>
      PdfReader pdf_bytes = Inr (map Inr texts) \<and>
      (strip (join nl (map or_empty texts)) = lit ''No extractable text found. Try enabling OCR.'' \<or>
       strip (join nl (map or_empty texts)) = [] \<and>
       (\<exists>convert_from_bytes image_to_string images ocr_text.
          pdf2image libs = Inr convert_from_bytes \<and> pytesseract libs = Inr image_to_string \<and>
          convert_from_bytes pdf_bytes = Inr images \<and>
          map image_to_string images = map Inr ocr_text \<and>
          join nl ocr_text = lit ''No extractable text found. Try enabling OCR.''))"
proof (cases "PyPDF2 libs")
  case None
  with assms show ?thesis by (simp add: no_PyPDF2 sentinel_not_PyPDF2_message)
next
  case (Some PdfReader)
  show ?thesis
  proof (cases "PdfReader pdf_bytes")
    case (Inl e)
    with Some assms show ?thesis by (simp add: reader_raises sentinel_not_PDF_error)
  next
    case (Inr pages)
    from pages_split [of pages] show ?thesis
    proof
      assume "\<exists>texts e rest. pages = map Inr texts @ Inl e # rest"
      then obtain texts e rest where "pages = map Inr texts @ Inl e # rest" by blast
      with Some Inr assms show ?thesis by (simp add: page_raises sentinel_not_PDF_error)
    next
      assume "\<exists>texts. pages = map Inr texts"
      then obtain texts where pages: "PdfReader pdf_bytes = Inr (map Inr texts)"
        using Inr by blast
      show ?thesis
      proof (cases "strip (join nl (map or_empty texts)) = []")
        case False
        with Some pages assms have "strip (join nl (map or_empty texts)) = lit ''No extractable text found. Try enabling OCR.''"
          by (simp add: direct_text_found)
        with Some pages show ?thesis by blast
      next
        case True
        note d = Some pages True
        have "\<exists>convert_from_bytes image_to_string images ocr_text.
          pdf2image libs = Inr convert_from_bytes \<and> pytesseract libs = Inr image_to_string \<and>
          convert_from_bytes pdf_bytes = Inr images \<and>
          map image_to_string images = map Inr ocr_text \<and>
          join nl ocr_text = lit ''No extractable text found. Try enabling OCR.''"
        proof (cases "pdf2image libs")
          case (Inl e)
          from ocr_import_pdf2image_raises [OF d this] assms show ?thesis
            by (simp add: sentinel_not_OCR_missing)
        next
          case c: (Inr convert_from_bytes)
          show ?thesis
          proof (cases "pytesseract libs")
            case (Inl e)
            from ocr_import_pytesseract_raises [OF d c this] assms show ?thesis
              by (simp add: sentinel_not_OCR_missing)
          next
            case i: (Inr image_to_string)
            show ?thesis
            proof (cases "convert_from_bytes pdf_bytes")
              case (Inl e)
              from ocr_convert_raises [OF d c i this] assms show ?thesis
                by (simp add: sentinel_not_OCR_failed)
            next
              case im: (Inr images)
              from outcomes_split [of image_to_string images] show ?thesis
              proof
                assume "\<exists>ys. map image_to_string images = map Inr ys"
                then obtain ocr_text where o: "map image_to_string images = map Inr ocr_text"
                  by blast
                from ocr_text [OF d c i im o] assms have "join nl ocr_text = lit ''No extractable text found. Try enabling OCR.''"
                  by simp
                with c i im o show ?thesis by blast
              next
                assume "\<exists>pre x post ys e. images = pre @ x # post \<and>
                  map image_to_string pre = map Inr ys \<and> image_to_string x = Inl e"
                then obtain pre x post ys e where "images = pre @ x # post"
                  and p: "map image_to_string pre = map Inr ys" and x: "image_to_string x = Inl e"
                  by blast
                with im have "convert_from_bytes pdf_bytes = Inr (pre @ x # post)" by simp
                from ocr_image_raises [OF d c i this p x] assms show ?thesis
                  by (simp add: sentinel_not_OCR_failed)
              qed
            qed
          qed
        qed
        with d show ?thesis by blast
      qed
    qed
  qed
qed

text \<open>
  Claim C10, amended. With \<open>use_ocr\<close> set, when the document has no direct text and OCR
  runs without fault but every text it reads is empty or whitespace (no image at all
  included), \<open>extract_text_from_pdf_bytes\<close> returns the newline-join of those texts, an
  empty or whitespace-only string, and none of the messages of the function. With
  \<open>use_ocr\<close> set the result is the no-extractable-text sentence only when the trimmed
  direct text of the document, or the joined OCR text, is itself that sentence.
\<close>

theorem ocr_without_text:
  "(PyPDF2 libs = Some PdfReader \<and> PdfReader pdf_bytes = Inr (map Inr texts) \<and>
    strip (join nl (map or_empty texts)) = [] \<and>
    pdf2image libs = Inr convert_from_bytes \<and> pytesseract libs = Inr image_to_string \<and>
    convert_from_bytes pdf_bytes = Inr images \<and>
    map image_to_string images = map Inr ocr_text \<and>
    (\<forall>t \<in> set ocr_text. \<forall>c \<in> set t. isspace c) \<longrightarrow>
      (\<exists>s. snd (extract_text_from_pdf_bytes libs pdf_bytes True) = Inr s \<and>
         s = join nl ocr_text \<and> (\<forall>c \<in> set s. isspace c) \<and> strip s = [] \<and>
         s \<noteq> lit ''No extractable text found. Try enabling OCR.'' \<and>
         s \<noteq> lit ''OCR dependencies missing. Install pdf2image and pytesseract to enable OCR.'' \<and>
         s \<noteq> lit ''PyPDF2 not installed. Install with: pip install PyPDF2'' \<and>
         (\<forall>m. s \<noteq> lit ''OCR extraction failed: '' @ m) \<and>
         (\<forall>m. s \<noteq> lit ''PDF extraction error: '' @ m))) \<and>
   (snd (extract_text_from_pdf_bytes libs pdf_bytes True) = Inr (lit ''No extractable text found. Try enabling OCR.'') \<longrightarrow>
      (\<exists>PdfReader texts. PyPDF2 libs = Some PdfReader \<and>
         PdfReader pdf_bytes = Inr (map Inr texts) \<and>
         (strip (join nl (map or_empty texts)) = lit ''No extractable text found. Try enabling OCR.'' \<or>
          strip (join nl (map or_empty texts)) = [] \<and>
          (\<exists>convert_from_bytes image_to_string images ocr_text.
             pdf2image libs = Inr convert_from_bytes \<and>
             pytesseract libs = Inr image_to_string \<and>
             convert_from_bytes pdf_bytes = Inr images \<and>
             map image_to_string images = map Inr ocr_text \<and>
             join nl ocr_text = lit ''No extractable text found. Try enabling OCR.''))))"
proof (intro conjI impI)
  assume a: "PyPDF2 libs = Some PdfReader \<and> PdfReader pdf_bytes = Inr (map Inr texts) \<and>
    strip (join nl (map or_empty texts)) = [] \<and>
    pdf2image libs = Inr convert_from_bytes \<and> pytesseract libs = Inr image_to_string \<and>
    convert_from_bytes pdf_bytes = Inr images \<and>
    map image_to_string images = map Inr ocr_text \<and>
    (\<forall>t \<in> set ocr_text. \<forall>c \<in> set t. isspace c)"
  then have "\<forall>t \<in> set ocr_text. \<forall>c \<in> set t. isspace c"
    by blast
  then have w: "\<forall>c \<in> set (join nl ocr_text). isspace c"
    by (rule join_whitespace)
  from a have "snd (extract_text_from_pdf_bytes libs pdf_bytes True) = Inr (join nl ocr_text)"
    by (simp add: ocr_text)
  with w strip_whitespace [OF w] whitespace_not_message [OF w]
  show "\<exists>s. snd (extract_text_from_pdf_bytes libs pdf_bytes True) = Inr s \<and>
         s = join nl ocr_text \<and> (\<forall>c \<in> set s. isspace c) \<and> strip s = [] \<and>
         s \<noteq> lit ''No extractable text found. Try enabling OCR.'' \<and>
         s \<noteq> lit ''OCR dependencies missing. Install pdf2image and pytesseract to enable OCR.'' \<and>
         s \<noteq> lit ''PyPDF2 not installed. Install with: pip install PyPDF2'' \<and>
         (\<forall>m. s \<noteq> lit ''OCR extraction failed: '' @ m) \<and>
         (\<forall>m. s \<noteq> lit ''PDF extraction error: '' @ m)"
    by simp
next
  assume "snd (extract_text_from_pdf_bytes libs pdf_bytes True) = Inr (lit ''No extractable text found. Try enabling OCR.'')"
  then show "\<exists>PdfReader texts. PyPDF2 libs = Some PdfReader \<and>
         PdfReader pdf_bytes = Inr (map Inr texts) \<and>
         (strip (join nl (map or_empty texts)) = lit ''No extractable text found. Try enabling OCR.'' \<or>
          strip (join nl (map or_empty texts)) = [] \<and>
          (\<exists>convert_from_bytes image_to_string images ocr_text.
             pdf2image libs = Inr convert_from_bytes \<and>
             pytesseract libs = Inr image_to_string \<and>
             convert_from_bytes pdf_bytes = Inr images \<and>
             map image_to_string images = map Inr ocr_text \<and>
             join nl ocr_text = lit ''No extractable text found. Try enabling OCR.''))"
    by (rule sentinel_only_if_ocr)
qed

theorem ocr_without_text_witness:
  "snd (extract_text_from_pdf_bytes
      \<lparr>PyPDF2 = Some (reader_of [Inr None]), pdf2image = Inr (rasterizer []),
        pytesseract = Inr (recognizer [])\<rparr> [37, 80] True) = Inr [] \<and>
   snd (extract_text_from_pdf_bytes
      \<lparr>PyPDF2 = Some (reader_of [Inr None, Inr None]), pdf2image = Inr (rasterizer [0, 1]),
        pytesseract = Inr (recognizer [[32], [10, 12]])\<rparr> [37, 80] True) = Inr [32, 10, 10, 12] \<and>
   strip [32, 10, 10, 12] = [] \<and>
   snd (extract_text_from_pdf_bytes
      \<lparr>PyPDF2 = Some (reader_of [Inr (Some (lit ''No extractable text found. Try enabling OCR.''))]),
        pdf2image = Inr (rasterizer [0]), pytesseract = Inr (recognizer [lit ''scan''])\<rparr> [37, 80] True) =
     Inr (lit ''No extractable text found. Try enabling OCR.'') \<and>
   (\<exists>texts. reader_of [Inr (Some (lit ''No extractable text found. Try enabling OCR.''))] [37, 80] = Inr (map Inr texts) \<and>
      strip (join nl (map or_empty texts)) = lit ''No extractable text found. Try enabling OCR.'')"
proof -
  let ?S = "lit ''No extractable text found. Try enabling OCR.''"
  let ?L = "\<lparr>PyPDF2 = Some (reader_of [Inr (Some (lit ''No extractable text found. Try enabling OCR.''))]),
        pdf2image = Inr (rasterizer [0]), pytesseract = Inr (recognizer [lit ''scan''])\<rparr>"
  have "snd (extract_text_from_pdf_bytes
      \<lparr>PyPDF2 = Some (reader_of [Inr None]), pdf2image = Inr (rasterizer []),
        pytesseract = Inr (recognizer [])\<rparr> [37, 80] True) = Inr []"
    using ocr_without_text [of "\<lparr>PyPDF2 = Some (reader_of [Inr None]), pdf2image = Inr (rasterizer []),
        pytesseract = Inr (recognizer [])\<rparr>" "reader_of [Inr None]" "[37, 80]" "[None]"
        "rasterizer []" "recognizer []" "[]" "[]"]
    by (simp add: reader_of_def rasterizer_def recognizer_def strip_def nl_def isspace_def)
  moreover have "snd (extract_text_from_pdf_bytes
      \<lparr>PyPDF2 = Some (reader_of [Inr None, Inr None]), pdf2image = Inr (rasterizer [0, 1]),
        pytesseract = Inr (recognizer [[32], [10, 12]])\<rparr> [37, 80] True) = Inr [32, 10, 10, 12] \<and>
   strip [32, 10, 10, 12] = []"
  proof -
    have h: "reader_of [Inr None, Inr None] [37, 80] = Inr (map Inr [None, None])"
      "strip (join nl (map or_empty [None, None])) = []"
      "rasterizer [0, 1] [37, 80] = Inr [0, 1]"
      "map (recognizer [[32], [10, 12]]) [0, 1] = map Inr [[32], [10, 12]]"
      "\<forall>t \<in> set [[32], [10, 12]]. \<forall>c \<in> set t. isspace c"
      "join nl [[32], [10, 12]] = [32, 10, 10, 12]"
      by (simp_all add: reader_of_def rasterizer_def recognizer_def strip_def nl_def isspace_def)
    from ocr_without_text [of "\<lparr>PyPDF2 = Some (reader_of [Inr None, Inr None]), pdf2image = Inr (rasterizer [0, 1]),
        pytesseract = Inr (recognizer [[32], [10, 12]])\<rparr>" "reader_of [Inr None, Inr None]" "[37, 80]" "[None, None]"
        "rasterizer [0, 1]" "recognizer [[32], [10, 12]]" "[0, 1]" "[[32], [10, 12]]"] h
    show ?thesis by (simp only: libs.simps simp_thms) blast
  qed
  moreover have "snd (extract_text_from_pdf_bytes ?L [37, 80] True) = Inr ?S \<and>
   (\<exists>texts. reader_of [Inr (Some ?S)] [37, 80] = Inr (map Inr texts) \<and>
      strip (join nl (map or_empty texts)) = ?S)"
  proof -
    have s: "strip (join nl (map or_empty [Some ?S])) = ?S"
      by (simp add: strip_def nl_def lit_def isspace_def)
    have n: "?S \<noteq> []"
      by (rule sentinel_nonempty)
    have p: "reader_of [Inr (Some ?S)] [37, 80] = Inr (map Inr [Some ?S])"
      by (simp add: reader_of_def)
    have r: "snd (extract_text_from_pdf_bytes ?L [37, 80] True) = Inr ?S"
      using direct_text_found [of ?L "reader_of [Inr (Some ?S)]" "[37, 80]" "[Some ?S]" True]
        p s n
      by (simp only: libs.simps simp_thms snd_conv)
    from r ocr_without_text [of ?L _ "[37, 80]"]
    obtain PdfReader texts where P: "PyPDF2 ?L = Some PdfReader"
      and pt: "PdfReader [37, 80] = Inr (map Inr texts)"
      by blast
    from P have R: "PdfReader = reader_of [Inr (Some ?S)]"
      by (simp only: libs.simps option.inject)
    from pt R p have "map Inr texts = (map Inr [Some ?S] :: page list)"
      by (simp only: sum.inject)
    then have "texts = [Some ?S]"
      by (simp only: inj_map_eq_map [OF inj_Inr])
    with s pt R show ?thesis using r by blast
  qed
  ultimately show ?thesis by (intro conjI) (erule conjE | assumption)+
qed

text \<open>
  The last part of the claim as stated fails: with \<open>use_ocr\<close> set, a scanned page on
  which OCR reads the sentinel sentence makes the function return that very string.
\<close>

theorem ocr_without_text_counterexample:
  "snd (extract_text_from_pdf_bytes
      \<lparr>PyPDF2 = Some (reader_of [Inr None]), pdf2image = Inr (rasterizer [0]),
        pytesseract = Inr (recognizer [lit ''No extractable text found. Try enabling OCR.''])\<rparr> [37, 80] True) =
     Inr (lit ''No extractable text found. Try enabling OCR.'')"
proof -
  have h: "reader_of [Inr None] [37, 80] = Inr (map Inr [None])"
    "strip (join nl (map or_empty [None])) = []"
    "rasterizer [0] [37, 80] = Inr [0]"
    "map (recognizer [lit ''No extractable text found. Try enabling OCR.'']) [0] = map Inr [lit ''No extractable text found. Try enabling OCR.'']"
    by (simp_all add: reader_of_def rasterizer_def recognizer_def strip_def)
  have "snd (extract_text_from_pdf_bytes
      \<lparr>PyPDF2 = Some (reader_of [Inr None]), pdf2image = Inr (rasterizer [0]),
        pytesseract = Inr (recognizer [lit ''No extractable text found. Try enabling OCR.''])\<rparr> [37, 80] True) =
     Inr (join nl [lit ''No extractable text found. Try enabling OCR.''])"
    using ocr_text [of "\<lparr>PyPDF2 = Some (reader_of [Inr None]), pdf2image = Inr (rasterizer [0]),
        pytesseract = Inr (recognizer [lit ''No extractable text found. Try enabling OCR.''])\<rparr>" "reader_of [Inr None]" "[37, 80]" "[None]"
        "rasterizer [0]" "recognizer [lit ''No extractable text found. Try enabling OCR.'']" "[0]"
        "[lit ''No extractable text found. Try enabling OCR.'']"] h
    by (simp only: libs.simps simp_thms snd_conv)
  then show ?thesis by (simp only: join.simps)
qed

subsection \<open>Chunking\<close>

lemma MAX_CHUNK_pos: "0 < MAX_CHUNK"
  by (simp add: MAX_CHUNK_def)

lemma chunks_eq:
  "chunks t = map (\<lambda>j. take MAX_CHUNK (drop (j * MAX_CHUNK) t))
                [0..<(length t + MAX_CHUNK - 1) div MAX_CHUNK]"
  by (simp add: chunks_def range3_def slice_def comp_def)

lemma concat_pieces: "concat (map (\<lambda>j. take k (drop (j * k) t)) [0..<m]) = take (m * k) t"
proof (induction m)
  case 0
  show ?case by simp
next
  case (Suc m)
  have "Suc m * k = m * k + k" by simp
  then have "take (Suc m * k) t = take (m * k) t @ take k (drop (m * k) t)"
    by (simp only: take_add)
  with Suc show ?case by simp
qed

lemma pieces_cover:
  assumes "0 < (k::nat)"
  shows "n \<le> ((n + k - 1) div k) * k"
proof -
  have "(n + k - 1) div k * k + (n + k - 1) mod k = n + k - 1"
    by (rule div_mult_mod_eq)
  moreover have "(n + k - 1) mod k < k"
    using assms by simp
  ultimately show ?thesis by linarith
qed

lemma piece_inside:
  assumes "0 < (k::nat)" and "j < (n + k - 1) div k"
  shows "j * k + k \<le> n + k - 1"
proof -
  from assms(2) have "Suc j \<le> (n + k - 1) div k" by simp
  with assms(1) have "Suc j * k \<le> n + k - 1"
    by (simp only: less_eq_div_iff_mult_less_eq)
  then show ?thesis by (simp add: add.commute)
qed

lemma concat_chunks: "concat (chunks t) = t"
proof -
  have "concat (chunks t) = take ((length t + MAX_CHUNK - 1) div MAX_CHUNK * MAX_CHUNK) t"
    by (simp only: chunks_eq concat_pieces)
  also have "\<dots> = t"
    using pieces_cover [OF MAX_CHUNK_pos, of "length t"] by (simp only: take_all)
  finally show ?thesis .
qed

lemma nth_chunks:
  "i < length (chunks t) \<Longrightarrow> chunks t ! i = take MAX_CHUNK (drop (i * MAX_CHUNK) t)"
  by (simp add: chunks_eq)

lemma chunk_length_le: "c \<in> set (chunks t) \<Longrightarrow> length c \<le> MAX_CHUNK"
  by (auto simp: chunks_eq)

lemma chunk_nonempty: "c \<in> set (chunks t) \<Longrightarrow> c \<noteq> []"
  using piece_inside [OF MAX_CHUNK_pos, of _ "length t"] MAX_CHUNK_pos
  by (fastforce simp: chunks_eq)

lemma chunk_full: "Suc i < length (chunks t) \<Longrightarrow> length (chunks t ! i) = MAX_CHUNK"
  using piece_inside [OF MAX_CHUNK_pos, of "Suc i" "length t"] by (simp add: chunks_eq)

lemma chunks_2500:
  assumes "length t = 2500"
  shows "map length (chunks t) = [1000, 1000, 500]"
proof -
  have "(length t + MAX_CHUNK - 1) div MAX_CHUNK = Suc (Suc (Suc 0))"
    by (simp add: assms MAX_CHUNK_def)
  then have "chunks t =
      map (\<lambda>j. take MAX_CHUNK (drop (j * MAX_CHUNK) t)) [0, Suc 0, Suc (Suc 0)]"
    by (simp add: chunks_eq upt_rec)
  then show ?thesis by (simp add: assms MAX_CHUNK_def)
qed

text \<open>
  Claim C3. With the maximum chunk length of 1000, the chunks of any text are contiguous
  pieces of it in the original order: their concatenation is the text, chunk \<open>i\<close>
  starts at position \<open>1000 * i\<close>, no chunk is longer than 1000 (or empty), and every
  chunk but the last has exactly 1000 characters. A text of 2500 characters gives three
  chunks of 1000, 1000 and 500 characters.
\<close>

theorem chunks_partition:
  "MAX_CHUNK = 1000 \<and>
   concat (chunks extracted) = extracted \<and>
   (\<forall>c \<in> set (chunks extracted). c \<noteq> [] \<and> length c \<le> 1000) \<and>
   (\<forall>i. Suc i < length (chunks extracted) \<longrightarrow> length (chunks extracted ! i) = 1000) \<and>
   (\<forall>i < length (chunks extracted). chunks extracted ! i = take 1000 (drop (i * 1000) extracted)) \<and>
   (length extracted = 2500 \<longrightarrow> map length (chunks extracted) = [1000, 1000, 500])"
proof -
  have m: "MAX_CHUNK = 1000" by (simp add: MAX_CHUNK_def)
  have "\<forall>c \<in> set (chunks extracted). c \<noteq> [] \<and> length c \<le> 1000"
    using chunk_length_le [of _ extracted] chunk_nonempty [of _ extracted] by (simp add: m)
  moreover have "\<forall>i. Suc i < length (chunks extracted) \<longrightarrow> length (chunks extracted ! i) = 1000"
    using chunk_full [of _ extracted] by (simp add: m)
  moreover have
    "\<forall>i < length (chunks extracted). chunks extracted ! i = take 1000 (drop (i * 1000) extracted)"
    using nth_chunks [of _ extracted] by (simp add: m)
  moreover have "length extracted = 2500 \<longrightarrow> map length (chunks extracted) = [1000, 1000, 500]"
    using chunks_2500 [of extracted] by simp
  ultimately show ?thesis using m concat_chunks [of extracted] by simp
qed

theorem chunks_partition_witness:
  "length (replicate 2500 (97::nat)) = 2500 \<and>
   map length (chunks (replicate 2500 97)) = [1000, 1000, 500] \<and>
   concat (chunks (replicate 2500 97)) = replicate 2500 97 \<and>
   Suc 0 < length (chunks (replicate 2500 97)) \<and>
   chunks (replicate 2500 97) ! 0 \<in> set (chunks (replicate 2500 97)) \<and>
   length (chunks (replicate 2500 97) ! 0) = 1000 \<and>
   chunks (replicate 2500 97) ! 0 = take 1000 (drop (0 * 1000) (replicate 2500 97))"
proof -
  let ?t = "replicate 2500 (97::nat)"
  note p = chunks_partition [of ?t]
  have l: "length ?t = 2500" by simp
  from p l have lens: "map length (chunks ?t) = [1000, 1000, 500]" by blast
  then have "length (map length (chunks ?t)) = 3" by simp
  then have n: "length (chunks ?t) = 3" by simp
  then have pos: "Suc 0 < length (chunks ?t)" and pos0: "0 < length (chunks ?t)" by simp_all
  from pos0 have mem: "chunks ?t ! 0 \<in> set (chunks ?t)" by (rule nth_mem)
  from p pos have full: "length (chunks ?t ! 0) = 1000" by blast
  from p pos0 have first: "chunks ?t ! 0 = take 1000 (drop (0 * 1000) ?t)" by blast
  from p have cat: "concat (chunks ?t) = ?t" by blast
  show ?thesis using l lens cat pos mem full first by blast
qed

subsection \<open>Summaries\<close>






subsection \<open>Start-up\<close>

lemma load_repo_analysis_found:
  "analysis_py s = Some (Inr m) \<Longrightarrow>
     load_repo_analysis s = ([exec_module_call], Inr (summarize_text m, extract_entities m))"
  by (simp add: load_repo_analysis_def bind_ext_Inr try_except_Inr after_return after_pair return_def)

lemma warn_returns:
  "bind (ext (st_warning_call w) (Inr ())) (\<lambda>_. return vars) = ([st_warning_call w], Inr vars)"
  by (simp add: bind_ext_Inr after_return)

lemma load_hf_pipelines_returns:
  "\<exists>cs h n. load_hf_pipelines s f g = (cs, Inr (h, n)) \<and>
     (truth f \<longrightarrow> h = None \<and> pipeline_call ''summarization'' \<notin> set cs) \<and>
     (truth g \<longrightarrow> n = None \<and> pipeline_call ''ner'' \<notin> set cs) \<and>
     (\<not> truth f \<or> \<not> truth g \<longrightarrow> import_transformers \<in> set cs)"
  by (cases "truth f"; cases "truth g"; cases "transformers s";
      cases "summarization (projr (transformers s))"; cases "ner (projr (transformers s))")
     (simp_all add: load_hf_pipelines_def Let_def warn_returns ext_def try_except_Inr try_except_Inl
        bind_Inr bind_Inl after_pair after_return return_def)

lemma startup_found:
  assumes "analysis_py s = Some (Inr m)"
    and "load_hf_pipelines s (summarize_text m) (extract_entities m) = (cs, Inr (h, n))"
  shows "startup s =
     (exec_module_call # cs,
      Inr \<lparr>summarize_fn = summarize_text m, ner_fn = extract_entities m,
           hf_summarizer = h, hf_ner = n\<rparr>)"
  by (simp add: startup_def load_repo_analysis_found [OF assms(1)] assms(2) bind_Inr after_pair
      after_return)

subsection \<open>The buttons\<close>

lemma Summarize_local:
  "summarize_fn b = Some f \<Longrightarrow> truthy f \<Longrightarrow>
     Summarize b extracted = ([summarize_fn_call extracted], on_call f extracted)"
  by (simp add: Summarize_def ext_def)

lemma Extract_Entities_local:
  "ner_fn b = Some g \<Longrightarrow> truthy g \<Longrightarrow>
     Extract_Entities b extracted = ([ner_fn_call extracted], on_call g extracted)"
  by (simp add: Extract_Entities_def ext_def)

lemma fst_bind:
  "fst (bind m k) = fst m @ (case snd m of Inl e \<Rightarrow> [] | Inr x \<Rightarrow> fst (k x))"
  by (simp add: bind_def try_except_def after_def raise_def split: sum.splits)

lemma comprehension_calls:
  assumes "\<And>x. set (fst (f x)) \<subseteq> A"
  shows "set (fst (comprehension f xs)) \<subseteq> A"
proof (induction xs)
  case Nil
  show ?case by (simp add: return_def)
next
  case (Cons x xs)
  from assms [of x] Cons.IH show ?case
    by (auto simp: fst_bind return_def split: sum.splits)
qed

lemma lookup_calls: "fst (bind (index0 out) (\<lambda>d. subscript d key)) = []"
proof (cases out)
  case Nil
  then show ?thesis by (simp add: fst_bind index0_def raise_def)
next
  case (Cons d rest)
  then show ?thesis
    by (cases "d key") (simp_all add: fst_bind index0_def subscript_def raise_def return_def)
qed

lemma summary_calls:
  "set (fst (bind (ext (hf_summarizer_call c) r) (\<lambda>out.
      bind (index0 out) (\<lambda>d. subscript d key)))) \<subseteq> range hf_summarizer_call"
  by (cases r) (simp_all add: bind_ext_Inr bind_ext_Inl fst_after lookup_calls)

lemma Summarize_not_local:
  assumes "\<not> truth (summarize_fn b)"
  shows "summarize_fn_call c \<notin> set (fst (Summarize b extracted))"
proof (cases "hf_summarizer b")
  case None
  with assms show ?thesis by (simp add: Summarize_def return_def)
next
  case (Some p)
  have "set (fst (comprehension
      (\<lambda>c. bind (ext (hf_summarizer_call c) (p c)) (\<lambda>out.
           bind (index0 out) (\<lambda>d. subscript d (lit ''summary_text''))))
      (chunks extracted))) \<subseteq> range hf_summarizer_call"
    by (rule comprehension_calls) (rule summary_calls)
  with assms Some show ?thesis
    by (auto simp: Summarize_def fst_bind return_def split: sum.splits)
qed

lemma Extract_Entities_not_local:
  assumes "\<not> truth (ner_fn b)"
  shows "ner_fn_call c \<notin> set (fst (Extract_Entities b extracted))"
  using assms by (cases "hf_ner b") (simp_all add: Extract_Entities_def return_def ext_def)

text \<open>
  Claim C5, amended. When \<open>code/analysis.py\<close> loads and defines \<open>summarize_text\<close> as a
  value that is true in a boolean test, as every ordinary function is, start-up binds it
  and leaves the Hugging Face summarizer unbound without ever constructing the
  summarization pipeline, and the Summarize button calls it once on the whole extracted
  text and yields its outcome as it is; this holds whatever importing \<open>transformers\<close>
  and constructing its pipelines would do. When the value is false in a boolean test,
  start-up goes on to import \<open>transformers\<close> and the button never calls the value.
  Likewise for \<open>extract_entities\<close>, the \<open>ner\<close> pipeline and the Extract Entities button.
\<close>

theorem local_function_wins:
  assumes "analysis_py s = Some (Inr m)"
  shows "\<exists>b. snd (startup s) = Inr b \<and>
     (\<forall>f. summarize_text m = Some f \<longrightarrow>
        summarize_fn b = Some f \<and>
        (truthy f \<longrightarrow>
           hf_summarizer b = None \<and>
           pipeline_call ''summarization'' \<notin> set (fst (startup s)) \<and>
           (\<forall>extracted.
              Summarize b extracted = ([summarize_fn_call extracted], on_call f extracted))) \<and>
        (\<not> truthy f \<longrightarrow>
           import_transformers \<in> set (fst (startup s)) \<and>
           (\<forall>extracted c. summarize_fn_call c \<notin> set (fst (Summarize b extracted))))) \<and>
     (\<forall>g. extract_entities m = Some g \<longrightarrow>
        ner_fn b = Some g \<and>
        (truthy g \<longrightarrow>
           hf_ner b = None \<and>
           pipeline_call ''ner'' \<notin> set (fst (startup s)) \<and>
           (\<forall>extracted.
              Extract_Entities b extracted = ([ner_fn_call extracted], on_call g extracted))) \<and>
        (\<not> truthy g \<longrightarrow>
           import_transformers \<in> set (fst (startup s)) \<and>
           (\<forall>extracted c. ner_fn_call c \<notin> set (fst (Extract_Entities b extracted)))))"
proof -
  from load_hf_pipelines_returns [of s "summarize_text m" "extract_entities m"]
  obtain cs h n
    where l: "load_hf_pipelines s (summarize_text m) (extract_entities m) = (cs, Inr (h, n))"
    and hs: "truth (summarize_text m) \<longrightarrow> h = None \<and> pipeline_call ''summarization'' \<notin> set cs"
    and hn: "truth (extract_entities m) \<longrightarrow> n = None \<and> pipeline_call ''ner'' \<notin> set cs"
    and im: "\<not> truth (summarize_text m) \<or> \<not> truth (extract_entities m) \<longrightarrow>
      import_transformers \<in> set cs"
    by blast
  let ?b = "\<lparr>summarize_fn = summarize_text m, ner_fn = extract_entities m,
           hf_summarizer = h, hf_ner = n\<rparr>"
  note st = startup_found [OF assms l]
  have "snd (startup s) = Inr ?b"
    by (simp add: st)
  moreover have "\<forall>f. summarize_text m = Some f \<longrightarrow>
        summarize_fn ?b = Some f \<and>
        (truthy f \<longrightarrow>
           hf_summarizer ?b = None \<and>
           pipeline_call ''summarization'' \<notin> set (fst (startup s)) \<and>
           (\<forall>extracted.
              Summarize ?b extracted = ([summarize_fn_call extracted], on_call f extracted))) \<and>
        (\<not> truthy f \<longrightarrow>
           import_transformers \<in> set (fst (startup s)) \<and>
           (\<forall>extracted c. summarize_fn_call c \<notin> set (fst (Summarize ?b extracted))))"
    using hs im by (simp add: st Summarize_local Summarize_not_local)
  moreover have "\<forall>g. extract_entities m = Some g \<longrightarrow>
        ner_fn ?b = Some g \<and>
        (truthy g \<longrightarrow>
           hf_ner ?b = None \<and>
           pipeline_call ''ner'' \<notin> set (fst (startup s)) \<and>
           (\<forall>extracted.
              Extract_Entities ?b extracted = ([ner_fn_call extracted], on_call g extracted))) \<and>
        (\<not> truthy g \<longrightarrow>
           import_transformers \<in> set (fst (startup s)) \<and>
           (\<forall>extracted c. ner_fn_call c \<notin> set (fst (Extract_Entities ?b extracted))))"
    using hn im by (simp add: st Extract_Entities_local Extract_Entities_not_local)
  ultimately show ?thesis by blast
qed

theorem local_function_wins_witness:
  "(\<exists>b. snd (startup
       \<lparr>analysis_py = Some (Inr
          \<lparr>summarize_text = Some \<lparr>truthy = True, on_call = leading 2\<rparr>,
           extract_entities = Some \<lparr>truthy = True, on_call = counting_tagger\<rparr>\<rparr>),
        transformers = Inr \<lparr>summarization = Inr (leading_pipeline 1),
                             ner = Inr broken_tagger\<rparr>\<rparr>) = Inr b \<and>
      hf_summarizer b = None \<and> hf_ner b = None \<and>
      Summarize b [97, 98, 99] = ([summarize_fn_call [97, 98, 99]], Inr [97, 98]) \<and>
      Extract_Entities b [97, 98, 99] = ([ner_fn_call [97, 98, 99]], Inr (Obj 3))) \<and>
   pipeline_call ''summarization'' \<notin> set (fst (startup
       \<lparr>analysis_py = Some (Inr
          \<lparr>summarize_text = Some \<lparr>truthy = True, on_call = leading 2\<rparr>,
           extract_entities = Some \<lparr>truthy = True, on_call = counting_tagger\<rparr>\<rparr>),
        transformers = Inr \<lparr>summarization = Inr (leading_pipeline 1),
                             ner = Inr broken_tagger\<rparr>\<rparr>)) \<and>
   pipeline_call ''ner'' \<notin> set (fst (startup
       \<lparr>analysis_py = Some (Inr
          \<lparr>summarize_text = Some \<lparr>truthy = True, on_call = leading 2\<rparr>,
           extract_entities = Some \<lparr>truthy = True, on_call = counting_tagger\<rparr>\<rparr>),
        transformers = Inr \<lparr>summarization = Inr (leading_pipeline 1),
                             ner = Inr broken_tagger\<rparr>\<rparr>)) \<and>
   (\<exists>b. snd (startup
       \<lparr>analysis_py = Some (Inr
          \<lparr>summarize_text = Some \<lparr>truthy = False, on_call = leading 2\<rparr>,
           extract_entities = Some \<lparr>truthy = False, on_call = counting_tagger\<rparr>\<rparr>),
        transformers = Inr \<lparr>summarization = Inr (leading_pipeline 1),
                             ner = Inr broken_tagger\<rparr>\<rparr>) = Inr b \<and>
      summarize_fn_call [97, 98, 99] \<notin> set (fst (Summarize b [97, 98, 99])) \<and>
      ner_fn_call [97, 98, 99] \<notin> set (fst (Extract_Entities b [97, 98, 99]))) \<and>
   import_transformers \<in> set (fst (startup
       \<lparr>analysis_py = Some (Inr
          \<lparr>summarize_text = Some \<lparr>truthy = False, on_call = leading 2\<rparr>,
           extract_entities = Some \<lparr>truthy = False, on_call = counting_tagger\<rparr>\<rparr>),
        transformers = Inr \<lparr>summarization = Inr (leading_pipeline 1),
                             ner = Inr broken_tagger\<rparr>\<rparr>))"
proof -
  let ?f = "\<lparr>truthy = True, on_call = leading 2\<rparr>"
  let ?g = "\<lparr>truthy = True, on_call = counting_tagger\<rparr>"
  let ?m = "\<lparr>summarize_text = Some ?f, extract_entities = Some ?g\<rparr>"
  let ?t = "Inr \<lparr>summarization = Inr (leading_pipeline 1), ner = Inr broken_tagger\<rparr>"
  let ?s = "\<lparr>analysis_py = Some (Inr ?m), transformers = ?t\<rparr>"
  let ?f' = "\<lparr>truthy = False, on_call = leading 2\<rparr>"
  let ?g' = "\<lparr>truthy = False, on_call = counting_tagger\<rparr>"
  let ?m' = "\<lparr>summarize_text = Some ?f', extract_entities = Some ?g'\<rparr>"
  let ?s' = "\<lparr>analysis_py = Some (Inr ?m'), transformers = ?t\<rparr>"
  have a: "analysis_py ?s = Some (Inr ?m)" by simp
  have e: "summarize_text ?m = Some ?f" "truthy ?f" "extract_entities ?m = Some ?g" "truthy ?g"
    by simp_all
  have a': "analysis_py ?s' = Some (Inr ?m')" by simp
  have e': "summarize_text ?m' = Some ?f'" "\<not> truthy ?f'" "extract_entities ?m' = Some ?g'"
    "\<not> truthy ?g'"
    by simp_all
  have ev: "on_call ?f [97, 98, 99] = Inr [97, 98]" "on_call ?g [97, 98, 99] = Inr (Obj 3)"
    by (simp_all add: leading_def counting_tagger_def)
  from local_function_wins [OF a] e
  obtain b where b: "snd (startup ?s) = Inr b"
    and s: "hf_summarizer b = None" "pipeline_call ''summarization'' \<notin> set (fst (startup ?s))"
      "Summarize b [97, 98, 99] = ([summarize_fn_call [97, 98, 99]], on_call ?f [97, 98, 99])"
    and n: "hf_ner b = None" "pipeline_call ''ner'' \<notin> set (fst (startup ?s))"
      "Extract_Entities b [97, 98, 99] = ([ner_fn_call [97, 98, 99]], on_call ?g [97, 98, 99])"
    by blast
  have one: "\<exists>b. snd (startup ?s) = Inr b \<and>
      hf_summarizer b = None \<and> hf_ner b = None \<and>
      Summarize b [97, 98, 99] = ([summarize_fn_call [97, 98, 99]], Inr [97, 98]) \<and>
      Extract_Entities b [97, 98, 99] = ([ner_fn_call [97, 98, 99]], Inr (Obj 3))"
    using b s(1,3) n(1,3) ev by (intro exI [of _ b]) (simp only: simp_thms)
  from local_function_wins [OF a'] e'
  obtain b' where b': "snd (startup ?s') = Inr b'"
    and s': "import_transformers \<in> set (fst (startup ?s'))"
      "summarize_fn_call [97, 98, 99] \<notin> set (fst (Summarize b' [97, 98, 99]))"
      "ner_fn_call [97, 98, 99] \<notin> set (fst (Extract_Entities b' [97, 98, 99]))"
    by blast
  have two: "\<exists>b. snd (startup ?s') = Inr b \<and>
      summarize_fn_call [97, 98, 99] \<notin> set (fst (Summarize b [97, 98, 99])) \<and>
      ner_fn_call [97, 98, 99] \<notin> set (fst (Extract_Entities b [97, 98, 99]))"
    using b' s'(2,3) by (intro exI [of _ b']) (simp only: simp_thms)
  from one s(2) n(2) two s'(1) show ?thesis by (intro conjI)
qed

text \<open>
  The claim as stated fails for an entry point that is defined but false in a boolean
  test: here \<open>code/analysis.py\<close> defines both names as callable objects that test false,
  each of which would answer the text \<open>abc\<close> (with \<open>ab\<close>, and with the count 3). Start-up
  constructs both Hugging Face pipelines, the Summarize button calls the summarization
  pipeline and shows its answer \<open>a\<close>, and the Extract Entities button calls the \<open>ner\<close>
  pipeline, whose fault is not caught.
\<close>

theorem local_function_wins_counterexample:
  "startup
     \<lparr>analysis_py = Some (Inr
        \<lparr>summarize_text = Some \<lparr>truthy = False, on_call = leading 2\<rparr>,
         extract_entities = Some \<lparr>truthy = False, on_call = counting_tagger\<rparr>\<rparr>),
      transformers = Inr \<lparr>summarization = Inr (leading_pipeline 1),
                           ner = Inr broken_tagger\<rparr>\<rparr> =
     ([exec_module_call, import_transformers, pipeline_call ''summarization'',
       pipeline_call ''ner''],
      Inr \<lparr>summarize_fn = Some \<lparr>truthy = False, on_call = leading 2\<rparr>,
           ner_fn = Some \<lparr>truthy = False, on_call = counting_tagger\<rparr>,
           hf_summarizer = Some (leading_pipeline 1), hf_ner = Some broken_tagger\<rparr>) \<and>
   Summarize
     \<lparr>summarize_fn = Some \<lparr>truthy = False, on_call = leading 2\<rparr>,
      ner_fn = Some \<lparr>truthy = False, on_call = counting_tagger\<rparr>,
      hf_summarizer = Some (leading_pipeline 1), hf_ner = Some broken_tagger\<rparr> [97, 98, 99] =
     ([hf_summarizer_call [97, 98, 99]], Inr [97]) \<and>
   on_call \<lparr>truthy = False, on_call = leading 2\<rparr> [97, 98, 99] = Inr [97, 98] \<and>
   Extract_Entities
     \<lparr>summarize_fn = Some \<lparr>truthy = False, on_call = leading 2\<rparr>,
      ner_fn = Some \<lparr>truthy = False, on_call = counting_tagger\<rparr>,
      hf_summarizer = Some (leading_pipeline 1), hf_ner = Some broken_tagger\<rparr> [97, 98, 99] =
     ([hf_ner_call [97, 98, 99]], Inl (Exception (lit ''model not loaded''))) \<and>
   on_call \<lparr>truthy = False, on_call = counting_tagger\<rparr> [97, 98, 99] = Inr (Obj 3)"
proof -
  have c: "chunks [97, 98, 99] = [[97, 98, 99]]"
    by (simp add: chunks_def range3_def slice_def MAX_CHUNK_def)
  have "startup
     \<lparr>analysis_py = Some (Inr
        \<lparr>summarize_text = Some \<lparr>truthy = False, on_call = leading 2\<rparr>,
         extract_entities = Some \<lparr>truthy = False, on_call = counting_tagger\<rparr>\<rparr>),
      transformers = Inr \<lparr>summarization = Inr (leading_pipeline 1),
                           ner = Inr broken_tagger\<rparr>\<rparr> =
     ([exec_module_call, import_transformers, pipeline_call ''summarization'',
       pipeline_call ''ner''],
      Inr \<lparr>summarize_fn = Some \<lparr>truthy = False, on_call = leading 2\<rparr>,
           ner_fn = Some \<lparr>truthy = False, on_call = counting_tagger\<rparr>,
           hf_summarizer = Some (leading_pipeline 1), hf_ner = Some broken_tagger\<rparr>)"
    by (simp add: startup_def load_repo_analysis_def load_hf_pipelines_def bind_ext_Inr ext_def
        try_except_Inr after_return after_pair return_def bind_Inr Let_def)
  moreover have "Summarize
     \<lparr>summarize_fn = Some \<lparr>truthy = False, on_call = leading 2\<rparr>,
      ner_fn = Some \<lparr>truthy = False, on_call = counting_tagger\<rparr>,
      hf_summarizer = Some (leading_pipeline 1), hf_ner = Some broken_tagger\<rparr> [97, 98, 99] =
     ([hf_summarizer_call [97, 98, 99]], Inr [97])"
    by (simp add: Summarize_def c leading_pipeline_def bind_ext_Inr index0_def subscript_def
        return_def bind_Inr after_pair)
  moreover have "Extract_Entities
     \<lparr>summarize_fn = Some \<lparr>truthy = False, on_call = leading 2\<rparr>,
      ner_fn = Some \<lparr>truthy = False, on_call = counting_tagger\<rparr>,
      hf_summarizer = Some (leading_pipeline 1), hf_ner = Some broken_tagger\<rparr> [97, 98, 99] =
     ([hf_ner_call [97, 98, 99]], Inl (Exception (lit ''model not loaded'')))"
    by (simp add: Extract_Entities_def broken_tagger_def ext_def)
  ultimately show ?thesis by (simp add: leading_def counting_tagger_def)
qed

end
